theory Spec2Isabelle
  imports Main "HOL-Library.Log_Nat"
begin

section \<open>JavaScript Numbers\<close>

text \<open>
  Balances and amounts of \<^verbatim>\<open>app.js\<close> are JavaScript Numbers: IEEE 754 binary64 values.
  A finite Number is kept as the rational it denotes; \<open>+0\<close> and \<open>-0\<close> are one value
  (the program never tells them apart: \<^verbatim>\<open><\<close>, \<^verbatim>\<open>>=\<close>, \<^verbatim>\<open>||\<close>,
  \<^verbatim>\<open>toFixed\<close> and string conversion treat them alike). Every arithmetic result is
  rounded to the nearest binary64 value, ties to even, as \<^verbatim>\<open>+\<close> and \<^verbatim>\<open>*\<close> do.
  Amounts and balances enter the functions below as Numbers, on which the conversions
  \<^verbatim>\<open>Number(amount)\<close> and \<^verbatim>\<open>Number(delta)\<close> of the source are the identity.
\<close>

datatype number = Fin rat | PInf | NInf | NaN

definition pow2 :: "int \<Rightarrow> rat" where
  "pow2 k = (if 0 \<le> k then 2 ^ nat k else 1 / 2 ^ nat (- k))"

text \<open>\<open>floor_log2 x\<close> is the binary exponent of a positive rational: \<open>2^e \<le> x < 2^(e+1)\<close>.\<close>

definition floor_log2 :: "rat \<Rightarrow> int" where
  "floor_log2 x =
     (if 1 \<le> x then bitlen \<lfloor>x\<rfloor> - 1 else - bitlen (\<lceil>1 / x\<rceil> - 1))"

definition round_half_even :: "rat \<Rightarrow> int" where
  "round_half_even q =
     (let f = \<lfloor>q\<rfloor>; r = q - of_int f
      in if r < 1 / 2 then f
         else if 1 / 2 < r then f + 1
         else if even f then f else f + 1)"

text \<open>
  Rounding of an exact result to binary64. The binary64 values around \<open>x\<close> are the
  multiples of \<open>ulp_of x\<close>: 53 significant bits, the exponent no smaller than -1022 (below
  it the values are subnormal, with the fixed spacing \<open>2^-1074\<close>). \<open>nearest x\<close> is the
  multiple nearest to \<open>x\<close>, ties to the even one, and the result is an infinity once that
  magnitude reaches \<open>2^1024\<close>.
\<close>

definition ulp_of :: "rat \<Rightarrow> rat" where
  "ulp_of x = pow2 (max (floor_log2 \<bar>x\<bar>) (- 1022) - 52)"

definition nearest :: "rat \<Rightarrow> rat" where
  "nearest x = (if x = 0 then 0 else of_int (round_half_even (x / ulp_of x)) * ulp_of x)"

definition to_double :: "rat \<Rightarrow> number" where
  "to_double x =
     (let y = nearest x
      in if pow2 1024 \<le> y then PInf
         else if y \<le> - pow2 1024 then NInf
         else Fin y)"

text \<open>The operators of the source on Numbers: \<^verbatim>\<open>a + b\<close>, \<^verbatim>\<open>-a\<close>, \<^verbatim>\<open>a * b\<close>, \<^verbatim>\<open>a < b\<close>, \<^verbatim>\<open>a >= b\<close>.\<close>

fun js_add :: "number \<Rightarrow> number \<Rightarrow> number" where
  "js_add NaN b = NaN"
| "js_add a NaN = NaN"
| "js_add PInf NInf = NaN"
| "js_add NInf PInf = NaN"
| "js_add PInf b = PInf"
| "js_add a PInf = PInf"
| "js_add NInf b = NInf"
| "js_add a NInf = NInf"
| "js_add (Fin x) (Fin y) = to_double (x + y)"

fun js_neg :: "number \<Rightarrow> number" where
  "js_neg (Fin x) = Fin (- x)"
| "js_neg PInf = NInf"
| "js_neg NInf = PInf"
| "js_neg NaN = NaN"

fun js_sign :: "number \<Rightarrow> int" where
  "js_sign (Fin x) = (if x < 0 then - 1 else if x = 0 then 0 else 1)"
| "js_sign PInf = 1"
| "js_sign NInf = - 1"
| "js_sign NaN = 0"

fun js_mul :: "number \<Rightarrow> number \<Rightarrow> number" where
  "js_mul NaN b = NaN"
| "js_mul a NaN = NaN"
| "js_mul (Fin x) (Fin y) = to_double (x * y)"
| "js_mul a b =
     (if js_sign a * js_sign b = 0 then NaN
      else if 0 < js_sign a * js_sign b then PInf else NInf)"

fun js_lt :: "number \<Rightarrow> number \<Rightarrow> bool" where
  "js_lt NaN b = False"
| "js_lt a NaN = False"
| "js_lt (Fin x) (Fin y) = (x < y)"
| "js_lt a NInf = False"
| "js_lt NInf b = True"
| "js_lt PInf b = False"
| "js_lt a PInf = True"

definition js_ge :: "number \<Rightarrow> number \<Rightarrow> bool" where
  "js_ge a b = (a \<noteq> NaN \<and> b \<noteq> NaN \<and> \<not> js_lt a b)"

text \<open>\<^verbatim>\<open>Number(x) || 0\<close> on a Number: the falsy Numbers, zero and NaN, become 0.\<close>

definition or_zero :: "number \<Rightarrow> number" where
  "or_zero x = (if x = Fin 0 \<or> x = NaN then Fin 0 else x)"

section \<open>Notification text\<close>

text \<open>
  A message is a template literal: its literal chunks and its interpolated values, in
  order. Interpolated Numbers are kept as values (\<open>NumStr\<close> for \<^verbatim>\<open>${delta}\<close>,
  \<open>ToFixed2\<close> for \<^verbatim>\<open>toFixed(2)\<close>), account ids as \<open>IdStr\<close>.
\<close>

datatype piece = Lit string | IdStr nat | NumStr number | ToFixed2 number

type_synonym message = "piece list"

definition rupee :: string where
  "rupee = [CHR 0xE2, CHR 0x82, CHR 0xB9]"

section \<open>Customers, strategies, accounts\<close>

record customer =
  name :: string

text \<open>
  The concrete strategies. The base class \<^verbatim>\<open>InterestStrategy\<close>, whose \<^verbatim>\<open>calculate\<close> only
  throws, is never instantiated by the program and has no value here; the same holds for
  the base class \<^verbatim>\<open>Command\<close> below.
\<close>

datatype InterestStrategy = SavingsInterest | FixedDepositInterest | CurrentInterest

fun calculate :: "InterestStrategy \<Rightarrow> number \<Rightarrow> number" where
  "calculate SavingsInterest balance = js_mul balance (to_double (3 / 100))"
| "calculate FixedDepositInterest balance = js_mul balance (to_double (7 / 100))"
| "calculate CurrentInterest balance = Fin 0"

text \<open>
  Objects are referred to by reference: a Customer by its position in \<open>customers\<close>, an
  Account by its position in \<open>heap\<close>, the store of all Account objects in order of
  construction.
\<close>

record account =
  id_acct :: nat
  owner :: nat
  balance :: number
  observers :: "nat list"
  interestStrategy :: InterestStrategy
  typeName :: string

datatype command =
    DepositCommand nat number
  | WithdrawCommand nat number
  | TransferCommand nat nat number

text \<open>
  Who posted an entry of the notification panel: the core itself (\<open>Direct\<close>), or the
  \<^verbatim>\<open>update\<close> method of the Customer with the given reference.
\<close>

datatype origin = Direct | Observer nat

text \<open>
  The state of the program: the global counter \<^verbatim>\<open>accountIdSeq\<close>, the store of Account
  objects, the array \<^verbatim>\<open>customers\<close> of \<^verbatim>\<open>App\<close> (which holds every Customer object, so it
  is their store as well), the array \<^verbatim>\<open>accounts\<close> of \<^verbatim>\<open>App\<close> as references into the
  store, the \<^verbatim>\<open>history\<close> of the TransactionManager, oldest command first, and the
  notification panel. The counter and the ids are natural numbers: the counter starts at
  1 and grows by one per construction, which Numbers do exactly up to \<open>2^53\<close>.
\<close>

record state =
  accountIdSeq :: nat
  heap :: "account list"
  customers :: "customer list"
  accounts :: "nat list"
  history :: "command list"
  notifications :: "(origin \<times> message) list"

definition init :: state where
  "init = \<lparr>accountIdSeq = 1, heap = [], customers = [], accounts = [],
           history = [], notifications = []\<rparr>"

text \<open>
  \<^verbatim>\<open>UI.notify\<close> inserts the entry at the top of the panel (\<^verbatim>\<open>afterbegin\<close>): the newest
  entry is the head of the list. The time stamp is not modelled, nor are the render
  functions, which only rewrite other page elements.
\<close>

definition UI_notify :: "origin \<Rightarrow> message \<Rightarrow> state \<Rightarrow> state" where
  "UI_notify who msg s = s\<lparr>notifications := (who, msg) # notifications s\<rparr>"

definition update :: "nat \<Rightarrow> message \<Rightarrow> state \<Rightarrow> state" where
  "update c msg s =
     UI_notify (Observer c) ([Lit ''['', Lit (name (customers s ! c)), Lit ''] ''] @ msg) s"

subsection \<open>Account\<close>

definition modify :: "nat \<Rightarrow> (account \<Rightarrow> account) \<Rightarrow> state \<Rightarrow> state" where
  "modify a f s = s\<lparr>heap := (heap s)[a := f (heap s ! a)]\<rparr>"

definition new_Account :: "nat \<Rightarrow> number \<Rightarrow> state \<Rightarrow> nat \<times> state" where
  "new_Account own initialBalance s =
     (length (heap s),
      s\<lparr>accountIdSeq := accountIdSeq s + 1,
        heap := heap s @
          [\<lparr>id_acct = accountIdSeq s, owner = own, balance = or_zero initialBalance,
            observers = [], interestStrategy = CurrentInterest,
            typeName = ''Generic''\<rparr>]\<rparr>)"

definition getBalance :: "state \<Rightarrow> nat \<Rightarrow> number" where
  "getBalance s a = balance (heap s ! a)"

definition attach :: "nat \<Rightarrow> nat \<Rightarrow> state \<Rightarrow> state" where
  "attach a ob s =
     (if ob \<in> set (observers (heap s ! a)) then s
      else modify a (\<lambda>acc. acc\<lparr>observers := observers acc @ [ob]\<rparr>) s)"

definition detach :: "nat \<Rightarrow> nat \<Rightarrow> state \<Rightarrow> state" where
  "detach a ob s =
     modify a (\<lambda>acc. acc\<lparr>observers := filter (\<lambda>x. x \<noteq> ob) (observers acc)\<rparr>) s"

definition notify :: "nat \<Rightarrow> message \<Rightarrow> state \<Rightarrow> state" where
  "notify a msg s =
     fold (\<lambda>ob. update ob
             ([Lit ''Acct#'', IdStr (id_acct (heap s ! a)), Lit '' ('',
               Lit (typeName (heap s ! a)), Lit ''): ''] @ msg))
          (observers (heap s ! a)) s"

definition updateBalance :: "nat \<Rightarrow> number \<Rightarrow> message \<Rightarrow> state \<Rightarrow> state" where
  "updateBalance a delta reason s =
     (let s1 = modify a (\<lambda>acc. acc\<lparr>balance := js_add (balance acc) delta\<rparr>) s
      in notify a
           (reason @ [Lit '' '', Lit (if js_ge delta (Fin 0) then ''+'' else []),
                      NumStr delta, Lit (''. New balance: '' @ rupee),
                      ToFixed2 (balance (heap s1 ! a))])
           s1)"

definition setInterestStrategy :: "nat \<Rightarrow> InterestStrategy \<Rightarrow> state \<Rightarrow> state" where
  "setInterestStrategy a strategy s = modify a (\<lambda>acc. acc\<lparr>interestStrategy := strategy\<rparr>) s"

definition calculateInterest :: "state \<Rightarrow> nat \<Rightarrow> number" where
  "calculateInterest s a = calculate (interestStrategy (heap s ! a)) (balance (heap s ! a))"

definition new_SavingsAccount :: "nat \<Rightarrow> number \<Rightarrow> state \<Rightarrow> nat \<times> state" where
  "new_SavingsAccount own initial s =
     (let (a, s1) = new_Account own initial s;
          s2 = modify a (\<lambda>acc. acc\<lparr>typeName := ''Savings''\<rparr>) s1
      in (a, setInterestStrategy a SavingsInterest s2))"

definition new_CurrentAccount :: "nat \<Rightarrow> number \<Rightarrow> state \<Rightarrow> nat \<times> state" where
  "new_CurrentAccount own initial s =
     (let (a, s1) = new_Account own initial s;
          s2 = modify a (\<lambda>acc. acc\<lparr>typeName := ''Current''\<rparr>) s1
      in (a, setInterestStrategy a CurrentInterest s2))"

definition new_FixedDepositAccount :: "nat \<Rightarrow> number \<Rightarrow> state \<Rightarrow> nat \<times> state" where
  "new_FixedDepositAccount own initial s =
     (let (a, s1) = new_Account own initial s;
          s2 = modify a (\<lambda>acc. acc\<lparr>typeName := ''FixedDeposit''\<rparr>) s1
      in (a, setInterestStrategy a FixedDepositInterest s2))"

subsection \<open>Commands\<close>

fun execute :: "command \<Rightarrow> state \<Rightarrow> state" where
  "execute (DepositCommand a amount) s = updateBalance a amount [Lit ''Deposit''] s"
| "execute (WithdrawCommand a amount) s =
     (if js_lt (getBalance s a) amount
      then UI_notify Direct
             [Lit ''Withdraw failed: insufficient funds on Acct#'', IdStr (id_acct (heap s ! a))] s
      else updateBalance a (js_neg amount) [Lit ''Withdraw''] s)"
| "execute (TransferCommand from to amount) s =
     (if js_lt (getBalance s from) amount
      then UI_notify Direct
             [Lit ''Transfer failed: insufficient funds on Acct#'', IdStr (id_acct (heap s ! from))] s
      else let s1 = updateBalance from (js_neg amount)
                      [Lit ''Transfer -> Acct#'', IdStr (id_acct (heap s ! to))] s
           in updateBalance to amount
                [Lit ''Transfer <- Acct#'', IdStr (id_acct (heap s1 ! from))] s1)"

fun undo :: "command \<Rightarrow> state \<Rightarrow> state" where
  "undo (DepositCommand a amount) s = updateBalance a (js_neg amount) [Lit ''Undo Deposit''] s"
| "undo (WithdrawCommand a amount) s = updateBalance a amount [Lit ''Undo Withdraw''] s"
| "undo (TransferCommand from to amount) s =
     (let s1 = updateBalance from amount
                 [Lit ''Undo Transfer from Acct#'', IdStr (id_acct (heap s ! from))] s
      in updateBalance to (js_neg amount)
           [Lit ''Undo Transfer to Acct#'', IdStr (id_acct (heap s1 ! to))] s1)"

subsection \<open>TransactionManager\<close>

definition executeCommand :: "command \<Rightarrow> state \<Rightarrow> state" where
  "executeCommand cmd s = (let s1 = execute cmd s in s1\<lparr>history := history s1 @ [cmd]\<rparr>)"

definition undoLast :: "state \<Rightarrow> state" where
  "undoLast s =
     (if length (history s) = 0 then UI_notify Direct [Lit ''Nothing to undo''] s
      else let l = last (history s)
           in undo l (s\<lparr>history := butlast (history s)\<rparr>))"

subsection \<open>App\<close>

definition addCustomer :: "string \<Rightarrow> state \<Rightarrow> nat \<times> state" where
  "addCustomer nm s =
     (length (customers s),
      UI_notify Direct [Lit ''Added customer '', Lit nm]
        (s\<lparr>customers := customers s @ [\<lparr>name = nm\<rparr>]\<rparr>))"

text \<open>
  \<^verbatim>\<open>customers[ownerIdx]\<close> is \<^verbatim>\<open>undefined\<close> outside the array, and the function then
  returns \<^verbatim>\<open>undefined\<close> (\<open>None\<close>) after a notice.
\<close>

definition createAccount :: "string \<Rightarrow> nat \<Rightarrow> number \<Rightarrow> state \<Rightarrow> nat option \<times> state" where
  "createAccount type ownerIdx initial s =
     (if \<not> ownerIdx < length (customers s)
      then (None, UI_notify Direct [Lit ''Select an owner''] s)
      else let (a, s1) =
                 (if type = ''savings'' then new_SavingsAccount ownerIdx initial s
                  else if type = ''current'' then new_CurrentAccount ownerIdx initial s
                  else if type = ''fixed'' then new_FixedDepositAccount ownerIdx initial s
                  else new_Account ownerIdx initial s);
               s2 = attach a ownerIdx s1;
               s3 = s2\<lparr>accounts := accounts s2 @ [a]\<rparr>
           in (Some a,
               UI_notify Direct
                 [Lit ''Created '', Lit (typeName (heap s3 ! a)), Lit '' Acct#'',
                  IdStr (id_acct (heap s3 ! a)), Lit '' for '',
                  Lit (name (customers s3 ! ownerIdx))] s3))"

definition findAccountById :: "state \<Rightarrow> nat \<Rightarrow> nat option" where
  "findAccountById s i = find (\<lambda>a. id_acct (heap s ! a) = i) (accounts s)"

definition deposit :: "nat \<Rightarrow> number \<Rightarrow> state \<Rightarrow> state" where
  "deposit accountId amount s =
     (case findAccountById s accountId of
        None \<Rightarrow> UI_notify Direct [Lit ''Select a valid account''] s
      | Some a \<Rightarrow> executeCommand (DepositCommand a amount) s)"

definition withdraw :: "nat \<Rightarrow> number \<Rightarrow> state \<Rightarrow> state" where
  "withdraw accountId amount s =
     (case findAccountById s accountId of
        None \<Rightarrow> UI_notify Direct [Lit ''Select a valid account''] s
      | Some a \<Rightarrow> executeCommand (WithdrawCommand a amount) s)"

definition transfer :: "nat \<Rightarrow> nat \<Rightarrow> number \<Rightarrow> state \<Rightarrow> state" where
  "transfer fromId toId amount s =
     (case (findAccountById s fromId, findAccountById s toId) of
        (Some from, Some to) \<Rightarrow>
          (if id_acct (heap s ! from) = id_acct (heap s ! to)
           then UI_notify Direct [Lit ''Cannot transfer to same account''] s
           else executeCommand (TransferCommand from to amount) s)
      | _ \<Rightarrow> UI_notify Direct [Lit ''Select valid accounts''] s)"

definition App_undoLast :: "state \<Rightarrow> state" where
  "App_undoLast s = undoLast s"

definition applyStrategy :: "nat \<Rightarrow> string \<Rightarrow> state \<Rightarrow> state" where
  "applyStrategy accountId key s =
     (case findAccountById s accountId of
        None \<Rightarrow> UI_notify Direct [Lit ''Select account to apply strategy''] s
      | Some a \<Rightarrow>
          (let s1 = (if key = ''savings'' then setInterestStrategy a SavingsInterest s
                     else if key = ''fixed'' then setInterestStrategy a FixedDepositInterest s
                     else if key = ''current'' then setInterestStrategy a CurrentInterest s
                     else s)
           in UI_notify Direct
                [Lit ''Applied '', Lit key, Lit '' strategy to Acct#'',
                 IdStr (id_acct (heap s1 ! a))] s1))"

definition calcInterest :: "nat \<Rightarrow> state \<Rightarrow> number \<times> state" where
  "calcInterest accountId s =
     (case findAccountById s accountId of
        None \<Rightarrow> (Fin 0, UI_notify Direct [Lit ''Select an account''] s)
      | Some a \<Rightarrow> (calculateInterest s a, s))"

text \<open>The operations the page invokes on \<^verbatim>\<open>App\<close>, and a run of them from a state.\<close>

datatype operation =
    AddCustomer string
  | CreateAccount string nat number
  | Deposit nat number
  | Withdraw nat number
  | Transfer nat nat number
  | UndoLast
  | ApplyStrategy nat string
  | CalcInterest nat

fun step :: "operation \<Rightarrow> state \<Rightarrow> state" where
  "step (AddCustomer nm) s = snd (addCustomer nm s)"
| "step (CreateAccount type ownerIdx initial) s = snd (createAccount type ownerIdx initial s)"
| "step (Deposit i amount) s = deposit i amount s"
| "step (Withdraw i amount) s = withdraw i amount s"
| "step (Transfer i j amount) s = transfer i j amount s"
| "step UndoLast s = App_undoLast s"
| "step (ApplyStrategy i key) s = applyStrategy i key s"
| "step (CalcInterest i) s = snd (calcInterest i s)"

definition run :: "operation list \<Rightarrow> state \<Rightarrow> state" where
  "run ops s = fold step ops s"

section \<open>Notions used in the properties\<close>

text \<open>How many entries of the panel were posted by the \<^verbatim>\<open>update\<close> of Customer \<open>c\<close>.\<close>

definition delivered :: "nat \<Rightarrow> state \<Rightarrow> nat" where
  "delivered c s = length (filter (\<lambda>e. fst e = Observer c) (notifications s))"

text \<open>The accounts a command refers to; in a running program every reference is live.\<close>

fun refs :: "command \<Rightarrow> nat list" where
  "refs (DepositCommand a amount) = [a]"
| "refs (WithdrawCommand a amount) = [a]"
| "refs (TransferCommand from to amount) = [from, to]"

definition valid_cmd :: "command \<Rightarrow> state \<Rightarrow> bool" where
  "valid_cmd cmd s = list_all (\<lambda>a. a < length (heap s)) (refs cmd)"

text \<open>The guard of \<open>execute\<close> lets the command through (a deposit has no guard).\<close>

fun guard_ok :: "command \<Rightarrow> state \<Rightarrow> bool" where
  "guard_ok (DepositCommand a amount) s = True"
| "guard_ok (WithdrawCommand a amount) s = (\<not> js_lt (getBalance s a) amount)"
| "guard_ok (TransferCommand from to amount) s = (\<not> js_lt (getBalance s from) amount)"

text \<open>
  A rational is representable when it is a binary64 value: rounding leaves it as it is.
  An update of a balance \<open>b\<close> by \<open>d\<close> is exact when both are finite, \<open>b\<close> is a binary64
  value and so is the sum \<open>b + d\<close>, so that the addition does not round.
\<close>

definition representable :: "rat \<Rightarrow> bool" where
  "representable x = (to_double x = Fin x)"

fun exact_upd :: "number \<Rightarrow> number \<Rightarrow> bool" where
  "exact_upd (Fin b) (Fin d) = (representable b \<and> representable (b + d))"
| "exact_upd b d = False"

fun exact_for :: "command \<Rightarrow> state \<Rightarrow> bool" where
  "exact_for (DepositCommand a amount) s = exact_upd (getBalance s a) amount"
| "exact_for (WithdrawCommand a amount) s = exact_upd (getBalance s a) (js_neg amount)"
| "exact_for (TransferCommand from to amount) s =
     (exact_upd (getBalance s from) (js_neg amount) \<and> exact_upd (getBalance s to) amount)"

text \<open>
  The values a Number can take: a binary64 value, an infinity or NaN. Every result of
  \<open>js_add\<close> is one. An operation of the page is numeric when the initial balance it passes
  to \<open>createAccount\<close> is a Number, and a state is numeric when every balance of its store is;
  the runs of numeric operations from the initial state keep the store numeric.
\<close>

fun is_finite :: "number \<Rightarrow> bool" where
  "is_finite (Fin x) = True"
| "is_finite b = False"

fun is_number :: "number \<Rightarrow> bool" where
  "is_number (Fin x) = representable x"
| "is_number b = True"

fun numeric_op :: "operation \<Rightarrow> bool" where
  "numeric_op (CreateAccount type ownerIdx initial) = is_number initial"
| "numeric_op op = True"

definition numeric_heap :: "state \<Rightarrow> bool" where
  "numeric_heap s = list_all is_number (map balance (heap s))"

text \<open>
  States of the page used as examples: the demo data of the source (Shivani with a
  Savings account of 1500, Ravi with a Current account of 500), the same two customers
  with accounts of 1000 and 200, one customer with a Savings account of 0.1, one
  customer with a Savings account of \<open>10^16\<close>, and one customer with a Current account
  of \<^verbatim>\<open>Infinity\<close>.
\<close>

definition demo :: state where
  "demo = run [AddCustomer ''Shivani'', AddCustomer ''Ravi'',
               CreateAccount ''savings'' 0 (Fin 1500),
               CreateAccount ''current'' 1 (Fin 500)] init"

definition pair_AB :: state where
  "pair_AB = run [AddCustomer ''Shivani'', AddCustomer ''Ravi'',
                  CreateAccount ''savings'' 0 (Fin 1000),
                  CreateAccount ''current'' 1 (Fin 200)] init"

definition tenth :: state where
  "tenth = run [AddCustomer ''Shivani'', CreateAccount ''savings'' 0 (to_double (1 / 10))] init"

definition large :: state where
  "large = run [AddCustomer ''Shivani'', CreateAccount ''savings'' 0 (Fin (10 ^ 16))] init"

definition unbounded :: state where
  "unbounded = run [AddCustomer ''Shivani'', CreateAccount ''current'' 0 PInf] init"

text \<open>The fan-out of \<open>notify\<close>: one entry per attached observer, the last notified on top.\<close>

definition fanout :: "state \<Rightarrow> message \<Rightarrow> nat list \<Rightarrow> (origin \<times> message) list" where
  "fanout s m obs =
     rev (map (\<lambda>c. (Observer c, [Lit ''['', Lit (name (customers s ! c)), Lit ''] ''] @ m)) obs)"

section \<open>Basic facts\<close>

subsection \<open>Rounding\<close>

text \<open>
  What the rounding functions do: \<open>floor_log2\<close> is the binary exponent, \<open>nearest x\<close> is a
  multiple of \<open>ulp_of x\<close> at most half a spacing away from \<open>x\<close>, and rounding is monotone,
  so that adding a negative amount never raises a balance.
\<close>

lemma pow2_powi: "pow2 k = 2 powi k"
  by (simp add: pow2_def power_int_def power_inverse inverse_eq_divide flip: power_one_over)

lemma pow2_pos: "0 < pow2 k"
  by (simp add: pow2_powi)

lemma pow2_add: "pow2 (a + b) = pow2 a * pow2 b"
  by (simp add: pow2_powi power_int_add)

lemma pow2_mono: "a \<le> b \<Longrightarrow> pow2 a \<le> pow2 b"
  by (simp add: pow2_powi power_int_increasing)

lemma pow2_strict_mono: "a < b \<Longrightarrow> pow2 a < pow2 b"
  by (simp add: pow2_powi power_int_strict_increasing)

lemma pow2_nat: "0 \<le> k \<Longrightarrow> pow2 k = of_int (2 ^ nat k)"
  by (simp add: pow2_def)

lemma floor_log2_bounds:
  assumes "0 < x"
  shows "pow2 (floor_log2 x) \<le> x \<and> x < pow2 (floor_log2 x + 1)"
proof (cases "1 \<le> x")
  case True
  let ?n = "\<lfloor>x\<rfloor>"
  have n: "0 < ?n" using True by simp
  have b: "2 ^ nat (bitlen ?n - 1) \<le> ?n" "?n < 2 ^ nat (bitlen ?n)"
    using bitlen_bounds [OF n] by simp_all
  have bl: "1 \<le> bitlen ?n"
    using n bitlen_eq_zero_iff [of ?n] bitlen_nonneg [of ?n] by linarith
  have e: "floor_log2 x = bitlen ?n - 1"
    using True by (simp add: floor_log2_def)
  have "pow2 (bitlen ?n - 1) = of_int (2 ^ nat (bitlen ?n - 1))"
    using bl by (simp add: pow2_nat)
  also have "\<dots> \<le> of_int ?n"
    using b(1) by (simp only: of_int_le_iff)
  also have "\<dots> \<le> x" by simp
  finally have lo: "pow2 (floor_log2 x) \<le> x" by (simp add: e)
  have "?n + 1 \<le> 2 ^ nat (bitlen ?n)" using b(2) by simp
  then have "(of_int (?n + 1) :: rat) \<le> of_int (2 ^ nat (bitlen ?n))"
    by (simp only: of_int_le_iff)
  moreover have "x < of_int (?n + 1)" by linarith
  moreover have "pow2 (bitlen ?n) = of_int (2 ^ nat (bitlen ?n))"
    using bl by (simp add: pow2_nat)
  ultimately have hi: "x < pow2 (floor_log2 x + 1)"
    by (simp add: e)
  from lo hi show ?thesis ..
next
  case False
  then have x1: "x < 1" by simp
  let ?m = "\<lceil>1 / x\<rceil> - 1"
  have inv: "1 < 1 / x" using assms x1 by simp
  then have m: "0 < ?m" by linarith
  have b: "2 ^ nat (bitlen ?m - 1) \<le> ?m" "?m < 2 ^ nat (bitlen ?m)"
    using bitlen_bounds [OF m] by simp_all
  have bl: "1 \<le> bitlen ?m"
    using m bitlen_eq_zero_iff [of ?m] bitlen_nonneg [of ?m] by linarith
  have e: "floor_log2 x = - bitlen ?m"
    using False by (simp add: floor_log2_def)
  have c1: "of_int ?m < 1 / x" by linarith
  have c2: "1 / x \<le> of_int (?m + 1)" by (simp add: le_of_int_ceiling)
  have "?m + 1 \<le> 2 ^ nat (bitlen ?m)" using b(2) by simp
  then have "(of_int (?m + 1) :: rat) \<le> of_int (2 ^ nat (bitlen ?m))"
    by (simp only: of_int_le_iff)
  with c2 have "1 / x \<le> of_int (2 ^ nat (bitlen ?m))" by (rule order_trans)
  then have "1 / x \<le> 2 ^ nat (bitlen ?m)" by simp
  then have "1 / 2 ^ nat (bitlen ?m) \<le> x"
    using assms by (simp add: field_simps)
  moreover have "pow2 (- bitlen ?m) = 1 / 2 ^ nat (bitlen ?m)"
    using bl by (simp add: pow2_def)
  ultimately have lo: "pow2 (floor_log2 x) \<le> x" by (simp add: e)
  have "(of_int (2 ^ nat (bitlen ?m - 1)) :: rat) \<le> of_int ?m"
    using b(1) by (simp only: of_int_le_iff)
  with c1 have "of_int (2 ^ nat (bitlen ?m - 1)) < 1 / x" by (rule order_le_less_trans [rotated])
  then have "2 ^ nat (bitlen ?m - 1) < 1 / x" by simp
  then have u: "x < 1 / 2 ^ nat (bitlen ?m - 1)"
    using assms by (simp add: field_simps)
  have "pow2 (- bitlen ?m + 1) = 1 / 2 ^ nat (bitlen ?m - 1)"
  proof (cases "bitlen ?m = 1")
    case True
    then show ?thesis by (simp add: pow2_def)
  next
    case False
    with bl have "- bitlen ?m + 1 < 0" by simp
    moreover have "nat (- (- bitlen ?m + 1)) = nat (bitlen ?m - 1)" by simp
    ultimately show ?thesis by (simp add: pow2_def)
  qed
  with u have hi: "x < pow2 (floor_log2 x + 1)" by (simp add: e)
  from lo hi show ?thesis ..
qed

lemma floor_log2_mono:
  assumes "0 < x" and "x \<le> y"
  shows "floor_log2 x \<le> floor_log2 y"
proof (rule ccontr)
  assume "\<not> floor_log2 x \<le> floor_log2 y"
  then have "floor_log2 y + 1 \<le> floor_log2 x" by simp
  then have "pow2 (floor_log2 y + 1) \<le> pow2 (floor_log2 x)" by (rule pow2_mono)
  also have "\<dots> \<le> x" using floor_log2_bounds [OF assms(1)] by simp
  also have "\<dots> \<le> y" by (rule assms(2))
  finally show False
    using floor_log2_bounds [of y] assms by simp
qed

lemma round_half_even_int [simp]: "round_half_even (of_int n) = n"
  by (simp add: round_half_even_def)

lemma round_half_even_floor:
  "\<lfloor>q\<rfloor> \<le> round_half_even q \<and> round_half_even q \<le> \<lfloor>q\<rfloor> + 1"
  by (simp add: round_half_even_def Let_def)

lemma round_half_even_mono:
  assumes "p \<le> q"
  shows "round_half_even p \<le> round_half_even q"
proof (cases "\<lfloor>p\<rfloor> = \<lfloor>q\<rfloor>")
  case True
  with assms show ?thesis
    by (auto simp: round_half_even_def Let_def)
next
  case False
  with assms have "\<lfloor>p\<rfloor> + 1 \<le> \<lfloor>q\<rfloor>"
    using floor_mono [of p q] by linarith
  with round_half_even_floor [of p] round_half_even_floor [of q] show ?thesis
    by linarith
qed

lemma round_half_even_minus: "round_half_even (- q) = - round_half_even q"
proof (cases "q = of_int \<lfloor>q\<rfloor>")
  case True
  then have "round_half_even (- of_int \<lfloor>q\<rfloor>) = - round_half_even (of_int \<lfloor>q\<rfloor>)"
    by (metis of_int_minus round_half_even_int)
  with True show ?thesis by simp
next
  case False
  then have lt: "of_int \<lfloor>q\<rfloor> < q"
    using of_int_floor_le [of q] by linarith
  have f: "\<lfloor>- q\<rfloor> = - \<lfloor>q\<rfloor> - 1"
  proof (rule floor_unique)
    show "of_int (- \<lfloor>q\<rfloor> - 1) \<le> - q"
      using floor_correct [of q] by simp
    show "- q < of_int (- \<lfloor>q\<rfloor> - 1) + 1"
      using lt by simp
  qed
  have r: "- q - of_int (- \<lfloor>q\<rfloor> - 1) = 1 - (q - of_int \<lfloor>q\<rfloor>)"
    by simp
  show ?thesis
    unfolding round_half_even_def Let_def f r by auto
qed

lemma ulp_of_pos [simp]: "0 < ulp_of x"
  by (simp add: ulp_of_def pow2_pos)

lemma ulp_of_minus [simp]: "ulp_of (- x) = ulp_of x"
  by (simp add: ulp_of_def)

lemma nearest_minus: "nearest (- x) = - nearest x"
  by (simp add: nearest_def round_half_even_minus)

lemma nearest_nonneg: "0 \<le> x \<Longrightarrow> 0 \<le> nearest x"
proof -
  assume "0 \<le> x"
  then have "0 \<le> x / ulp_of x" by (simp add: zero_le_divide_iff less_imp_le)
  then have "round_half_even 0 \<le> round_half_even (x / ulp_of x)"
    by (rule round_half_even_mono)
  then have "0 \<le> round_half_even (x / ulp_of x)"
    using round_half_even_int [of 0] by simp
  then show ?thesis by (simp add: nearest_def zero_le_mult_iff less_imp_le)
qed

text \<open>Within the binade of a positive \<open>x\<close>: the exponent \<open>e\<close> used for the spacing.\<close>

lemma nearest_upper:
  assumes "0 < x" and e: "e = max (floor_log2 x) (- 1022)"
  shows "nearest x \<le> pow2 (e + 1)"
proof -
  have u: "ulp_of x = pow2 (e - 52)"
    using assms by (simp add: ulp_of_def)
  have "x < pow2 (floor_log2 x + 1)"
    using floor_log2_bounds [OF assms(1)] by simp
  also have "\<dots> \<le> pow2 (e + 1)"
    by (rule pow2_mono) (simp add: e)
  finally have "x < pow2 (e + 1)" .
  moreover have s: "pow2 (e + 1) = pow2 53 * pow2 (e - 52)"
    using pow2_add [of 53 "e - 52"] by (simp add: add.commute)
  ultimately have "x / pow2 (e - 52) \<le> pow2 53"
    by (simp add: pos_divide_le_eq pow2_pos)
  also have p53: "pow2 53 = of_int (2 ^ 53)"
    by (simp add: pow2_def)
  finally have "round_half_even (x / pow2 (e - 52)) \<le> round_half_even (of_int (2 ^ 53))"
    by (rule round_half_even_mono)
  then have "round_half_even (x / pow2 (e - 52)) \<le> 2 ^ 53"
    by (simp only: round_half_even_int)
  then have "(of_int (round_half_even (x / pow2 (e - 52))) :: rat) \<le> of_int (2 ^ 53)"
    by (simp only: of_int_le_iff)
  then have "of_int (round_half_even (x / pow2 (e - 52))) * pow2 (e - 52)
               \<le> of_int (2 ^ 53) * pow2 (e - 52)"
    by (rule mult_right_mono) (simp add: less_imp_le pow2_pos)
  also have "of_int (2 ^ 53) * pow2 (e - 52) = pow2 (e + 1)"
    by (simp only: s p53)
  finally show ?thesis
    using assms(1) by (simp add: nearest_def u)
qed

lemma nearest_lower:
  assumes "0 < x" and e: "e = floor_log2 x" and n: "- 1022 \<le> e"
  shows "pow2 e \<le> nearest x"
proof -
  have u: "ulp_of x = pow2 (e - 52)"
    using assms by (simp add: ulp_of_def max_def)
  have "pow2 e \<le> x"
    using floor_log2_bounds [OF assms(1)] by (simp add: e)
  moreover have s: "pow2 e = pow2 52 * pow2 (e - 52)"
    using pow2_add [of 52 "e - 52"] by simp
  ultimately have "pow2 52 \<le> x / pow2 (e - 52)"
    by (simp add: pos_le_divide_eq pow2_pos)
  moreover have p52: "pow2 52 = of_int (2 ^ 52)"
    by (simp add: pow2_def)
  ultimately have "of_int (2 ^ 52) \<le> x / pow2 (e - 52)"
    by (simp only:)
  then have "round_half_even (of_int (2 ^ 52)) \<le> round_half_even (x / pow2 (e - 52))"
    by (rule round_half_even_mono)
  then have "2 ^ 52 \<le> round_half_even (x / pow2 (e - 52))"
    by (simp only: round_half_even_int)
  then have "(of_int (2 ^ 52) :: rat) \<le> of_int (round_half_even (x / pow2 (e - 52)))"
    by (simp only: of_int_le_iff)
  then have "of_int (2 ^ 52) * pow2 (e - 52)
               \<le> of_int (round_half_even (x / pow2 (e - 52))) * pow2 (e - 52)"
    by (rule mult_right_mono) (simp add: less_imp_le pow2_pos)
  then have "pow2 e \<le> of_int (round_half_even (x / pow2 (e - 52))) * pow2 (e - 52)"
    by (simp only: s p52)
  moreover have "nearest x = of_int (round_half_even (x / pow2 (e - 52))) * pow2 (e - 52)"
    using assms(1) by (simp add: nearest_def u)
  ultimately show ?thesis by (simp only:)
qed

lemma nearest_mono_pos:
  assumes "0 < x" and "x \<le> y"
  shows "nearest x \<le> nearest y"
proof -
  have y: "0 < y" using assms by simp
  let ?ex = "max (floor_log2 x) (- 1022)"
  let ?ey = "max (floor_log2 y) (- 1022)"
  have le: "?ex \<le> ?ey"
    using floor_log2_mono [OF assms] by simp
  show ?thesis
  proof (cases "?ex = ?ey")
    case True
    then have u: "ulp_of x = ulp_of y"
      using assms y by (simp add: ulp_of_def)
    have "x / ulp_of y \<le> y / ulp_of y"
      using assms(2) by (simp add: divide_right_mono less_imp_le)
    then have "round_half_even (x / ulp_of y) \<le> round_half_even (y / ulp_of y)"
      by (rule round_half_even_mono)
    then have "(of_int (round_half_even (x / ulp_of y)) :: rat)
                 \<le> of_int (round_half_even (y / ulp_of y))"
      by (simp only: of_int_le_iff)
    then have "of_int (round_half_even (x / ulp_of y)) * ulp_of y
                 \<le> of_int (round_half_even (y / ulp_of y)) * ulp_of y"
      by (rule mult_right_mono) (simp add: less_imp_le)
    then show ?thesis
      using assms(1) y by (simp add: nearest_def u)
  next
    case False
    with le have lt: "?ex < ?ey" by (rule le_neq_trans)
    then have fy: "?ey = floor_log2 y" "- 1022 \<le> floor_log2 y"
      by arith+
    have "nearest x \<le> pow2 (?ex + 1)"
      using assms(1) by (rule nearest_upper) simp
    also have "\<dots> \<le> pow2 (floor_log2 y)"
      by (rule pow2_mono) (use lt fy in arith)
    also have "\<dots> \<le> nearest y"
      using y by (rule nearest_lower) (simp_all add: fy)
    finally show ?thesis .
  qed
qed

lemma nearest_mono:
  assumes "x \<le> y"
  shows "nearest x \<le> nearest y"
proof -
  consider "0 < x" | "x \<le> 0" "0 \<le> y" | "y < 0"
    using assms by linarith
  then show ?thesis
  proof cases
    case 1
    then show ?thesis using assms by (rule nearest_mono_pos)
  next
    case 2
    have "nearest x = - nearest (- x)"
      by (simp add: nearest_minus)
    moreover have "0 \<le> nearest (- x)"
      using 2(1) by (intro nearest_nonneg) simp
    moreover have "0 \<le> nearest y"
      using 2(2) by (rule nearest_nonneg)
    ultimately show ?thesis by simp
  next
    case 3
    then have "0 < - y" "- y \<le> - x"
      using assms by simp_all
    then have "nearest (- y) \<le> nearest (- x)"
      by (rule nearest_mono_pos)
    then show ?thesis
      by (simp add: nearest_minus)
  qed
qed

lemma to_double_cases:
  "to_double x = PInf \<and> pow2 1024 \<le> nearest x
   \<or> to_double x = NInf \<and> nearest x \<le> - pow2 1024
   \<or> to_double x = Fin (nearest x) \<and> - pow2 1024 < nearest x \<and> nearest x < pow2 1024"
  by (auto simp: to_double_def Let_def)

lemma to_double_mono:
  assumes "x \<le> y"
  shows "\<not> js_lt (to_double y) (to_double x)"
  using nearest_mono [OF assms] to_double_cases [of x] to_double_cases [of y]
    pow2_pos [of 1024]
  by auto

lemma js_add_negative_not_higher:
  assumes "representable b" and "x \<le> 0"
  shows "\<not> js_lt (Fin b) (js_add (Fin b) (Fin x))"
proof -
  have "b + x \<le> b" using assms(2) by simp
  then have "\<not> js_lt (to_double b) (to_double (b + x))"
    by (rule to_double_mono)
  then show ?thesis
    using assms(1) by (simp add: representable_def)
qed

lemma round_half_even_error: "\<bar>of_int (round_half_even q) - q\<bar> \<le> 1 / 2"
proof -
  have "of_int \<lfloor>q\<rfloor> \<le> q" "q < of_int \<lfloor>q\<rfloor> + 1"
    by linarith+
  then show ?thesis
    by (auto simp: round_half_even_def Let_def abs_le_iff)
qed

lemma nearest_error: "\<bar>nearest x - x\<bar> \<le> ulp_of x / 2"
proof (cases "x = 0")
  case True
  then show ?thesis by (simp add: nearest_def less_imp_le)
next
  case False
  let ?u = "ulp_of x"
  have "\<bar>of_int (round_half_even (x / ?u)) - x / ?u\<bar> * ?u \<le> 1 / 2 * ?u"
    by (rule mult_right_mono [OF round_half_even_error]) (simp add: less_imp_le)
  moreover have "\<bar>of_int (round_half_even (x / ?u)) - x / ?u\<bar> * ?u
                  = \<bar>(of_int (round_half_even (x / ?u)) - x / ?u) * ?u\<bar>"
    by (simp add: abs_mult less_imp_le)
  moreover have "?u \<noteq> 0"
    using ulp_of_pos [of x] by (rule less_imp_neq [symmetric])
  then have "(of_int (round_half_even (x / ?u)) - x / ?u) * ?u = nearest x - x"
    using False by (simp add: nearest_def left_diff_distrib)
  ultimately show ?thesis by simp
qed

lemma js_add_negative_lower:
  assumes "representable b" and "x \<le> 0" and "js_add (Fin b) (Fin x) \<noteq> Fin b"
  shows "js_lt (js_add (Fin b) (Fin x)) (Fin b)"
proof -
  have n: "\<not> js_lt (Fin b) (js_add (Fin b) (Fin x))"
    using assms(1,2) by (rule js_add_negative_not_higher)
  have "js_add (Fin b) (Fin x) \<noteq> NaN"
    using to_double_cases [of "b + x"] by auto
  with n assms(3) show ?thesis
    by (cases "js_add (Fin b) (Fin x)") auto
qed

lemma floor_log2_unique:
  assumes "0 < z" and "pow2 k \<le> z" and "z < pow2 (k + 1)"
  shows "floor_log2 z = k"
proof -
  note b = floor_log2_bounds [OF assms(1)]
  have "floor_log2 z < k + 1"
  proof (rule ccontr)
    assume "\<not> floor_log2 z < k + 1"
    then have "pow2 (k + 1) \<le> pow2 (floor_log2 z)" by (intro pow2_mono) simp
    with b assms(3) show False by simp
  qed
  moreover have "k < floor_log2 z + 1"
  proof (rule ccontr)
    assume "\<not> k < floor_log2 z + 1"
    then have "pow2 (floor_log2 z + 1) \<le> pow2 k" by (intro pow2_mono) simp
    with b assms(2) show False by simp
  qed
  ultimately show ?thesis by simp
qed

lemma nearest_idem_pos:
  assumes "0 < x"
  shows "nearest (nearest x) = nearest x"
proof -
  let ?e = "max (floor_log2 x) (- 1022)"
  let ?u = "pow2 (?e - 52)"
  let ?n = "round_half_even (x / ?u)"
  let ?y = "nearest x"
  have u: "ulp_of x = ?u"
    using assms by (simp add: ulp_of_def)
  have y: "?y = of_int ?n * ?u"
    using assms by (simp add: nearest_def u)
  have up: "?y \<le> pow2 (?e + 1)"
    using assms by (rule nearest_upper) simp
  have nn: "0 \<le> ?y"
    using assms by (intro nearest_nonneg) simp
  consider "?y = 0" | "?y = pow2 (?e + 1)" | "0 < ?y" "?y < pow2 (?e + 1)"
    using up nn by linarith
  then show ?thesis
  proof cases
    case 1
    then show ?thesis by (simp add: nearest_def)
  next
    case 2
    have pos: "0 < pow2 (?e + 1)" by (rule pow2_pos)
    have "floor_log2 (pow2 (?e + 1)) = ?e + 1"
      using pos by (rule floor_log2_unique) (simp_all add: pow2_strict_mono)
    then have ul: "ulp_of (pow2 (?e + 1)) = pow2 (?e + 1 - 52)"
      using pos by (simp add: ulp_of_def max_def)
    have s: "pow2 (?e + 1) = pow2 52 * pow2 (?e + 1 - 52)"
      using pow2_add [of 52 "?e + 1 - 52"] by (simp add: add.commute)
    have p52: "pow2 52 = of_int (2 ^ 52)"
      by (simp add: pow2_def)
    have nz: "pow2 (?e + 1 - 52) \<noteq> 0"
      using pow2_pos [of "?e + 1 - 52"] by simp
    have "pow2 (?e + 1) / pow2 (?e + 1 - 52) = of_int (2 ^ 52)"
      using nz by (simp add: s p52)
    then have "round_half_even (pow2 (?e + 1) / pow2 (?e + 1 - 52)) = 2 ^ 52"
      by (simp only: round_half_even_int)
    then have "nearest (pow2 (?e + 1)) = of_int (2 ^ 52) * pow2 (?e + 1 - 52)"
      using pos by (simp add: nearest_def ul)
    also have "\<dots> = pow2 (?e + 1)"
      by (simp only: s p52)
    finally show ?thesis by (simp only: 2)
  next
    case 3
    have ey: "max (floor_log2 ?y) (- 1022) = ?e"
    proof (cases "- 1022 \<le> floor_log2 x")
      case True
      then have "pow2 (floor_log2 x) \<le> ?y"
        using assms by (intro nearest_lower) simp_all
      moreover from True have e: "?e = floor_log2 x" by simp
      ultimately have "floor_log2 ?y = ?e"
        using 3 by (intro floor_log2_unique) simp_all
      then show ?thesis by simp
    next
      case False
      then have e: "?e = - 1022" by simp
      have "floor_log2 ?y < - 1021"
      proof (rule ccontr)
        assume "\<not> floor_log2 ?y < - 1021"
        then have "pow2 (- 1021) \<le> pow2 (floor_log2 ?y)" by (intro pow2_mono) simp
        also have "\<dots> \<le> ?y" using floor_log2_bounds [OF 3(1)] by simp
        finally show False using 3(2) by (simp add: e)
      qed
      then show ?thesis by (simp add: e)
    qed
    have uy: "ulp_of ?y = ?u"
      using 3(1) by (simp add: ulp_of_def ey)
    have nz: "?u \<noteq> 0"
      using pow2_pos [of "?e - 52"] by simp
    have "?y / ?u = of_int ?n"
      using nz by (simp add: y)
    then have "round_half_even (?y / ?u) = ?n"
      by (simp only: round_half_even_int)
    then have "nearest ?y = of_int ?n * ?u"
      using 3(1) by (simp add: nearest_def [of ?y] uy)
    then show ?thesis by (simp only: y)
  qed
qed

lemma nearest_idem: "nearest (nearest x) = nearest x"
proof -
  consider "x = 0" | "0 < x" | "0 < - x" by linarith
  then show ?thesis
  proof cases
    case 1
    then show ?thesis by (simp add: nearest_def)
  next
    case 2
    then show ?thesis by (rule nearest_idem_pos)
  next
    case 3
    then have "nearest (nearest (- x)) = nearest (- x)" by (rule nearest_idem_pos)
    then show ?thesis by (simp add: nearest_minus)
  qed
qed

lemma is_number_to_double: "is_number (to_double x)"
  using to_double_cases [of x]
  by (auto simp: representable_def to_double_def [of "nearest x"] Let_def nearest_idem)

lemma is_number_js_add: "is_number (js_add a b)"
  by (cases a; cases b) (simp_all add: is_number_to_double)

lemma representable_zero: "representable 0"
  using pow2_pos [of 1024]
  by (simp add: representable_def to_double_def nearest_def Let_def not_le)

lemma is_number_or_zero: "is_number x \<Longrightarrow> is_number (or_zero x)"
  by (simp add: or_zero_def representable_zero)

lemma js_add_negative_number:
  assumes "is_number b" and "js_lt d (Fin 0)"
  shows "\<not> js_lt b (js_add b d)
       \<and> (is_finite b \<longrightarrow> js_add b d = b \<or> js_lt (js_add b d) b)
       \<and> (\<not> is_finite b \<longrightarrow> js_add b d = b \<or> js_add b d = NaN)"
proof (cases b)
  case (Fin y)
  show ?thesis
  proof (cases d)
    case (Fin x)
    with assms \<open>b = Fin y\<close> have r: "representable y" and x: "x \<le> 0"
      by simp_all
    have "\<not> js_lt (Fin y) (js_add (Fin y) (Fin x))"
      using r x by (rule js_add_negative_not_higher)
    moreover have "js_add (Fin y) (Fin x) = Fin y \<or> js_lt (js_add (Fin y) (Fin x)) (Fin y)"
      using js_add_negative_lower [OF r x] by blast
    ultimately show ?thesis
      using \<open>b = Fin y\<close> \<open>d = Fin x\<close> by simp
  next
    case PInf
    with assms show ?thesis by simp
  next
    case NInf
    with \<open>b = Fin y\<close> show ?thesis by simp
  next
    case NaN
    with assms show ?thesis by simp
  qed
next
  case PInf
  with assms show ?thesis by (cases d) simp_all
next
  case NInf
  with assms show ?thesis by (cases d) simp_all
next
  case NaN
  then show ?thesis by simp
qed

subsection \<open>State\<close>

lemma UI_notify_fields [simp]:
  "heap (UI_notify w m s) = heap s"
  "history (UI_notify w m s) = history s"
  "accounts (UI_notify w m s) = accounts s"
  "customers (UI_notify w m s) = customers s"
  "accountIdSeq (UI_notify w m s) = accountIdSeq s"
  "notifications (UI_notify w m s) = (w, m) # notifications s"
  by (simp_all add: UI_notify_def)

lemma update_fields [simp]:
  "heap (update c m s) = heap s"
  "history (update c m s) = history s"
  "accounts (update c m s) = accounts s"
  "customers (update c m s) = customers s"
  "accountIdSeq (update c m s) = accountIdSeq s"
  by (simp_all add: update_def)

lemma notifications_update:
  "notifications (update c m s) =
     (Observer c, [Lit ''['', Lit (name (customers s ! c)), Lit ''] ''] @ m) # notifications s"
  by (simp add: update_def)

lemma modify_fields [simp]:
  "heap (modify a f s) = (heap s)[a := f (heap s ! a)]"
  "history (modify a f s) = history s"
  "accounts (modify a f s) = accounts s"
  "customers (modify a f s) = customers s"
  "accountIdSeq (modify a f s) = accountIdSeq s"
  "notifications (modify a f s) = notifications s"
  by (simp_all add: modify_def)

lemma fold_update:
  "fold (\<lambda>c. update c m) obs s = s\<lparr>notifications := fanout s m obs @ notifications s\<rparr>"
proof (induction obs arbitrary: s)
  case Nil
  show ?case by (simp add: fanout_def)
next
  case (Cons c obs)
  show ?case
    by (simp add: Cons.IH fanout_def notifications_update)
qed

lemma notify_eq:
  "notify a msg s =
     s\<lparr>notifications :=
         fanout s ([Lit ''Acct#'', IdStr (id_acct (heap s ! a)), Lit '' ('',
                    Lit (typeName (heap s ! a)), Lit ''): ''] @ msg) (observers (heap s ! a))
         @ notifications s\<rparr>"
  by (simp add: notify_def fold_update)

lemma nth_update_self:
  "(xs[a := f (xs ! a)]) ! a = (if a < length xs then f (xs ! a) else xs ! a)"
  by (simp add: list_update_beyond)

lemma updateBalance_heap:
  "heap (updateBalance a d r s) =
     (heap s)[a := (heap s ! a)\<lparr>balance := js_add (balance (heap s ! a)) d\<rparr>]"
  by (simp add: updateBalance_def Let_def notify_eq)

lemma updateBalance_fields [simp]:
  "history (updateBalance a d r s) = history s"
  "accounts (updateBalance a d r s) = accounts s"
  "customers (updateBalance a d r s) = customers s"
  "accountIdSeq (updateBalance a d r s) = accountIdSeq s"
  by (simp_all add: updateBalance_def Let_def notify_eq)

lemma updateBalance_notifications:
  "notifications (updateBalance a d r s) =
     fanout s
       ([Lit ''Acct#'', IdStr (id_acct (heap s ! a)), Lit '' ('',
         Lit (typeName (heap s ! a)), Lit ''): ''] @ r @
        [Lit '' '', Lit (if js_ge d (Fin 0) then ''+'' else []), NumStr d,
         Lit (''. New balance: '' @ rupee),
         ToFixed2 (balance (heap (updateBalance a d r s) ! a))])
       (observers (heap s ! a))
     @ notifications s"
  by (cases "a < length (heap s)")
     (simp_all add: updateBalance_def Let_def notify_eq fanout_def list_update_beyond)

lemma undoLast_empty:
  "history s = [] \<Longrightarrow>
   undoLast s = s\<lparr>notifications := (Direct, [Lit ''Nothing to undo'']) # notifications s\<rparr>"
  by (simp add: undoLast_def UI_notify_def)

lemma undoLast_empty_iter:
  "history s = [] \<Longrightarrow>
   (undoLast ^^ n) s =
     s\<lparr>notifications := replicate n (Direct, [Lit ''Nothing to undo'']) @ notifications s\<rparr>"
proof (induction n)
  case 0
  then show ?case by simp
next
  case (Suc n)
  then show ?case
    by (simp add: undoLast_def UI_notify_def replicate_append_same)
qed

subsection \<open>Evaluation of Numbers and of the example states\<close>

lemma floor_rat_numeral [simp]:
  "\<lfloor>numeral a / numeral b :: rat\<rfloor> = numeral a div numeral b"
  by (metis floor_divide_of_int_eq of_int_numeral)

lemma floor_rat_neg_numeral [simp]:
  "\<lfloor>- (numeral a / numeral b :: rat)\<rfloor> = - numeral a div numeral b"
  by (metis floor_divide_of_int_eq of_int_numeral of_int_minus minus_divide_left)

lemmas double_eval =
  to_double_def nearest_def ulp_of_def floor_log2_def compute_bitlen ceiling_def pow2_def
  round_half_even_def Let_def

lemmas app_eval = run_def init_def addCustomer_def createAccount_def new_Account_def
  new_SavingsAccount_def new_CurrentAccount_def new_FixedDepositAccount_def
  setInterestStrategy_def attach_def modify_def UI_notify_def or_zero_def
  findAccountById_def deposit_def withdraw_def transfer_def App_undoLast_def
  applyStrategy_def calcInterest_def calculateInterest_def getBalance_def
  executeCommand_def undoLast_def updateBalance_def notify_def update_def js_ge_def

lemma demo_eq:
  "demo =
     \<lparr>accountIdSeq = 3,
      heap =
        [\<lparr>id_acct = 1, owner = 0, balance = Fin 1500, observers = [0],
           interestStrategy = SavingsInterest, typeName = ''Savings''\<rparr>,
         \<lparr>id_acct = 2, owner = 1, balance = Fin 500, observers = [1],
           interestStrategy = CurrentInterest, typeName = ''Current''\<rparr>],
      customers = [\<lparr>name = ''Shivani''\<rparr>, \<lparr>name = ''Ravi''\<rparr>],
      accounts = [0, 1], history = [],
      notifications =
        [(Direct, [Lit ''Created '', Lit ''Current'', Lit '' Acct#'', IdStr 2,
                   Lit '' for '', Lit ''Ravi'']),
         (Direct, [Lit ''Created '', Lit ''Savings'', Lit '' Acct#'', IdStr 1,
                   Lit '' for '', Lit ''Shivani'']),
         (Direct, [Lit ''Added customer '', Lit ''Ravi'']),
         (Direct, [Lit ''Added customer '', Lit ''Shivani''])]\<rparr>"
  by (simp add: demo_def app_eval)

lemma pair_AB_eq:
  "pair_AB =
     \<lparr>accountIdSeq = 3,
      heap =
        [\<lparr>id_acct = 1, owner = 0, balance = Fin 1000, observers = [0],
           interestStrategy = SavingsInterest, typeName = ''Savings''\<rparr>,
         \<lparr>id_acct = 2, owner = 1, balance = Fin 200, observers = [1],
           interestStrategy = CurrentInterest, typeName = ''Current''\<rparr>],
      customers = [\<lparr>name = ''Shivani''\<rparr>, \<lparr>name = ''Ravi''\<rparr>],
      accounts = [0, 1], history = [],
      notifications =
        [(Direct, [Lit ''Created '', Lit ''Current'', Lit '' Acct#'', IdStr 2,
                   Lit '' for '', Lit ''Ravi'']),
         (Direct, [Lit ''Created '', Lit ''Savings'', Lit '' Acct#'', IdStr 1,
                   Lit '' for '', Lit ''Shivani'']),
         (Direct, [Lit ''Added customer '', Lit ''Ravi'']),
         (Direct, [Lit ''Added customer '', Lit ''Shivani''])]\<rparr>"
  by (simp add: pair_AB_def app_eval)

lemma tenth_eq:
  "tenth =
     \<lparr>accountIdSeq = 2,
      heap =
        [\<lparr>id_acct = 1, owner = 0, balance = Fin (3602879701896397 / 2 ^ 55), observers = [0],
           interestStrategy = SavingsInterest, typeName = ''Savings''\<rparr>],
      customers = [\<lparr>name = ''Shivani''\<rparr>],
      accounts = [0], history = [],
      notifications =
        [(Direct, [Lit ''Created '', Lit ''Savings'', Lit '' Acct#'', IdStr 1,
                   Lit '' for '', Lit ''Shivani'']),
         (Direct, [Lit ''Added customer '', Lit ''Shivani''])]\<rparr>"
  by (simp add: tenth_def app_eval double_eval)

lemma large_eq:
  "large =
     \<lparr>accountIdSeq = 2,
      heap =
        [\<lparr>id_acct = 1, owner = 0, balance = Fin (10 ^ 16), observers = [0],
           interestStrategy = SavingsInterest, typeName = ''Savings''\<rparr>],
      customers = [\<lparr>name = ''Shivani''\<rparr>],
      accounts = [0], history = [],
      notifications =
        [(Direct, [Lit ''Created '', Lit ''Savings'', Lit '' Acct#'', IdStr 1,
                   Lit '' for '', Lit ''Shivani'']),
         (Direct, [Lit ''Added customer '', Lit ''Shivani''])]\<rparr>"
  by (simp add: large_def app_eval)

lemma unbounded_eq:
  "unbounded =
     \<lparr>accountIdSeq = 2,
      heap =
        [\<lparr>id_acct = 1, owner = 0, balance = PInf, observers = [0],
           interestStrategy = CurrentInterest, typeName = ''Current''\<rparr>],
      customers = [\<lparr>name = ''Shivani''\<rparr>],
      accounts = [0], history = [],
      notifications =
        [(Direct, [Lit ''Created '', Lit ''Current'', Lit '' Acct#'', IdStr 1,
                   Lit '' for '', Lit ''Shivani'']),
         (Direct, [Lit ''Added customer '', Lit ''Shivani''])]\<rparr>"
  by (simp add: unbounded_def app_eval)

lemma exact_upd_add:
  "exact_upd b d \<Longrightarrow> js_add (js_add b d) (js_neg d) = b"
  by (cases b; cases d) (simp_all add: representable_def)

lemma exact_upd_sub:
  "exact_upd b (js_neg d) \<Longrightarrow> js_add (js_add b (js_neg d)) d = b"
  by (cases b; cases d) (simp_all add: representable_def)

lemma update_balance_same:
  "balance (xs ! t) = b \<Longrightarrow> xs[t := (xs ! t)\<lparr>balance := b\<rparr>] = xs"
  by (auto simp: list_update_same_conv)

lemma execute_history [simp]: "history (execute cmd s) = history s"
  by (cases cmd) (simp_all add: Let_def)

lemma undo_history [simp]: "history (undo cmd s) = history s"
  by (cases cmd) (simp_all add: Let_def)

lemma undoLast_executeCommand:
  "undoLast (executeCommand cmd s) = undo cmd ((execute cmd s)\<lparr>history := history s\<rparr>)"
  by (simp add: undoLast_def executeCommand_def Let_def)

lemma updateBalance_history_irrelevant:
  "updateBalance a d r (s\<lparr>history := h\<rparr>) = (updateBalance a d r s)\<lparr>history := h\<rparr>"
  by (simp add: updateBalance_def notify_eq modify_def Let_def fanout_def)

lemma undo_history_irrelevant:
  "undo cmd (s\<lparr>history := h\<rparr>) = (undo cmd s)\<lparr>history := h\<rparr>"
  by (cases cmd) (simp_all add: updateBalance_history_irrelevant Let_def)

lemma heap_undoLast_executeCommand:
  "heap (undoLast (executeCommand cmd s)) = heap (undo cmd (execute cmd s))"
  by (simp add: undoLast_executeCommand undo_history_irrelevant)

lemma heap_undo_cong: "heap s = heap s' \<Longrightarrow> heap (undo cmd s) = heap (undo cmd s')"
  by (cases cmd) (simp_all add: updateBalance_heap Let_def)

lemma execute_abort:
  "\<not> guard_ok cmd s \<Longrightarrow> heap (execute cmd s) = heap s"
  by (cases cmd) simp_all

lemma delivered_UI_notify_Direct [simp]:
  "delivered c (s\<lparr>notifications := (Direct, m) # notifications s\<rparr>) = delivered c s"
  by (simp add: delivered_def)

lemma updateBalance_nth_fields [simp]:
  "id_acct (heap (updateBalance a d r s) ! b) = id_acct (heap s ! b)"
  "observers (heap (updateBalance a d r s) ! b) = observers (heap s ! b)"
  "typeName (heap (updateBalance a d r s) ! b) = typeName (heap s ! b)"
  "owner (heap (updateBalance a d r s) ! b) = owner (heap s ! b)"
  "interestStrategy (heap (updateBalance a d r s) ! b) = interestStrategy (heap s ! b)"
  by (cases "a < length (heap s)"; cases "a = b";
      simp add: updateBalance_heap list_update_beyond)+

lemma map_fst_fanout: "map fst (fanout s m obs) = rev (map Observer obs)"
  by (simp add: fanout_def rev_map comp_def)

lemma updateBalance_posts:
  "\<exists>new. notifications (updateBalance a d r s) = new @ notifications s
         \<and> map fst new = rev (map Observer (observers (heap s ! a)))"
  by (simp add: updateBalance_notifications map_fst_fanout)

lemma transfer_AB_notifications:
  "notifications (transfer 1 2 (Fin 300) pair_AB) =
     [(Observer 1,
       [Lit ''['', Lit ''Ravi'', Lit ''] '', Lit ''Acct#'', IdStr 2, Lit '' ('',
        Lit ''Current'', Lit ''): '', Lit ''Transfer <- Acct#'', IdStr 1, Lit '' '',
        Lit ''+'', NumStr (Fin 300), Lit (''. New balance: '' @ rupee), ToFixed2 (Fin 500)]),
      (Observer 0,
       [Lit ''['', Lit ''Shivani'', Lit ''] '', Lit ''Acct#'', IdStr 1, Lit '' ('',
        Lit ''Savings'', Lit ''): '', Lit ''Transfer -> Acct#'', IdStr 2, Lit '' '',
        Lit [], NumStr (Fin (- 300)), Lit (''. New balance: '' @ rupee), ToFixed2 (Fin 700)])]
     @ notifications pair_AB"
  by (simp add: pair_AB_eq app_eval double_eval)

lemma createAccount_valid:
  assumes "ownerIdx < length (customers s)"
  shows "createAccount type ownerIdx initial s =
     (Some (length (heap s)),
      s\<lparr>accountIdSeq := accountIdSeq s + 1,
        heap := heap s @
          [\<lparr>id_acct = accountIdSeq s, owner = ownerIdx, balance = or_zero initial,
            observers = [ownerIdx],
            interestStrategy =
              (if type = ''savings'' then SavingsInterest
               else if type = ''fixed'' then FixedDepositInterest else CurrentInterest),
            typeName =
              (if type = ''savings'' then ''Savings''
               else if type = ''current'' then ''Current''
               else if type = ''fixed'' then ''FixedDeposit'' else ''Generic'')\<rparr>],
        accounts := accounts s @ [length (heap s)],
        notifications :=
          (Direct,
           [Lit ''Created '',
            Lit (if type = ''savings'' then ''Savings''
                 else if type = ''current'' then ''Current''
                 else if type = ''fixed'' then ''FixedDeposit'' else ''Generic''),
            Lit '' Acct#'', IdStr (accountIdSeq s), Lit '' for '',
            Lit (name (customers s ! ownerIdx))]) # notifications s\<rparr>)"
  using assms
  by (simp add: createAccount_def new_Account_def new_SavingsAccount_def
        new_CurrentAccount_def new_FixedDepositAccount_def setInterestStrategy_def
        attach_def modify_def UI_notify_def Let_def)

lemma createAccount_invalid:
  "\<not> ownerIdx < length (customers s) \<Longrightarrow>
   createAccount type ownerIdx initial s = (None, UI_notify Direct [Lit ''Select an owner''] s)"
  by (simp add: createAccount_def)

lemma count_list_distinct:
  "distinct xs \<Longrightarrow> count_list xs x = (if x \<in> set xs then 1 else 0)"
  by (induction xs) auto

lemma delivered_fanout:
  "length (filter (\<lambda>e. fst e = Observer c) (fanout s m obs)) = count_list obs c"
  by (induction obs) (auto simp: fanout_def)

lemma delivered_updateBalance:
  "delivered c (updateBalance a d r s) = delivered c s + count_list (observers (heap s ! a)) c"
  by (simp add: delivered_def updateBalance_notifications delivered_fanout)

lemma attach_observers:
  "a < length (heap s) \<Longrightarrow>
   observers (heap (attach a ob s) ! a) =
     (if ob \<in> set (observers (heap s ! a)) then observers (heap s ! a)
      else observers (heap s ! a) @ [ob])"
  by (simp add: attach_def)

lemma attach_length [simp]: "length (heap (attach a ob s)) = length (heap s)"
  by (simp add: attach_def)

lemma attach_attach:
  "a < length (heap s) \<Longrightarrow> attach a ob (attach a ob s) = attach a ob s"
  by (simp add: attach_def)

lemma attach_funpow:
  "a < length (heap s) \<Longrightarrow> (attach a ob ^^ Suc n) s = attach a ob s"
proof (induction n)
  case 0
  show ?case by simp
next
  case (Suc n)
  have "(attach a ob ^^ Suc (Suc n)) s = attach a ob ((attach a ob ^^ Suc n) s)"
    by simp
  also have "\<dots> = attach a ob (attach a ob s)"
    using Suc by simp
  also have "\<dots> = attach a ob s"
    using Suc.prems by (rule attach_attach)
  finally show ?case .
qed

text \<open>Updates that leave a field \<open>g\<close> of every account alone leave \<open>map g\<close> of the store alone.\<close>

lemma map_list_update_same:
  "g y = g (xs ! a) \<Longrightarrow> map g (xs[a := y]) = map g xs"
  by (cases "a < length xs") (simp_all add: map_update list_update_same_conv list_update_beyond)

lemma map_heap_updateBalance:
  assumes "\<And>acc v. g (acc\<lparr>balance := v\<rparr>) = g acc"
  shows "map g (heap (updateBalance a d r s)) = map g (heap s)"
  by (simp add: updateBalance_heap map_list_update_same assms)

lemma map_heap_execute:
  assumes "\<And>acc v. g (acc\<lparr>balance := v\<rparr>) = g acc"
  shows "map g (heap (execute cmd s)) = map g (heap s)"
  by (cases cmd) (simp_all add: Let_def map_heap_updateBalance [of g, OF assms])

lemma map_heap_undo:
  assumes "\<And>acc v. g (acc\<lparr>balance := v\<rparr>) = g acc"
  shows "map g (heap (undo cmd s)) = map g (heap s)"
  by (cases cmd) (simp_all add: Let_def map_heap_updateBalance [of g, OF assms])

lemma map_heap_executeCommand:
  assumes "\<And>acc v. g (acc\<lparr>balance := v\<rparr>) = g acc"
  shows "map g (heap (executeCommand cmd s)) = map g (heap s)"
  by (simp add: executeCommand_def Let_def map_heap_execute [of g, OF assms])

lemma map_heap_undoLast:
  assumes "\<And>acc v. g (acc\<lparr>balance := v\<rparr>) = g acc"
  shows "map g (heap (undoLast s)) = map g (heap s)"
  by (simp add: undoLast_def Let_def map_heap_undo [of g, OF assms])

lemma execute_seq [simp]:
  "accountIdSeq (execute cmd s) = accountIdSeq s"
  "customers (execute cmd s) = customers s"
  by (cases cmd; simp add: Let_def)+

lemma undo_seq [simp]:
  "accountIdSeq (undo cmd s) = accountIdSeq s"
  "customers (undo cmd s) = customers s"
  by (cases cmd; simp add: Let_def)+

lemma executeCommand_seq [simp]:
  "accountIdSeq (executeCommand cmd s) = accountIdSeq s"
  "customers (executeCommand cmd s) = customers s"
  by (simp_all add: executeCommand_def Let_def)

lemma undoLast_seq [simp]:
  "accountIdSeq (undoLast s) = accountIdSeq s"
  "customers (undoLast s) = customers s"
  by (simp_all add: undoLast_def Let_def)

lemma map_heap_step:
  assumes bal: "\<And>acc v. g (acc\<lparr>balance := v\<rparr>) = g acc"
      and str: "\<And>acc v. g (acc\<lparr>interestStrategy := v\<rparr>) = g acc"
      and nc: "\<And>type ownerIdx initial.
                 op = CreateAccount type ownerIdx initial \<Longrightarrow> \<not> ownerIdx < length (customers s)"
  shows "map g (heap (step op s)) = map g (heap s) \<and> accountIdSeq (step op s) = accountIdSeq s"
proof (cases op)
  case (AddCustomer nm)
  then show ?thesis by (simp add: addCustomer_def)
next
  case (CreateAccount type ownerIdx initial)
  with nc show ?thesis by (simp add: createAccount_invalid)
next
  case (Deposit i amount)
  then show ?thesis
    by (simp add: deposit_def map_heap_executeCommand [of g, OF bal]
          split: option.split)
next
  case (Withdraw i amount)
  then show ?thesis
    by (simp add: withdraw_def map_heap_executeCommand [of g, OF bal]
          split: option.split)
next
  case (Transfer i j amount)
  then show ?thesis
    by (simp add: transfer_def map_heap_executeCommand [of g, OF bal]
          split: option.split)
next
  case UndoLast
  then show ?thesis
    by (simp add: App_undoLast_def map_heap_undoLast [of g, OF bal])
next
  case (ApplyStrategy i key)
  then show ?thesis
    by (simp add: applyStrategy_def setInterestStrategy_def Let_def map_list_update_same str
          split: option.split)
next
  case (CalcInterest i)
  then show ?thesis by (simp add: calcInterest_def split: option.split)
qed

lemma step_prefix:
  assumes bal: "\<And>acc v. g (acc\<lparr>balance := v\<rparr>) = g acc"
      and str: "\<And>acc v. g (acc\<lparr>interestStrategy := v\<rparr>) = g acc"
  shows "\<exists>ext. map g (heap (step op s)) = map g (heap s) @ ext"
proof (cases "\<exists>type ownerIdx initial.
                op = CreateAccount type ownerIdx initial \<and> ownerIdx < length (customers s)")
  case True
  then show ?thesis by (auto simp: createAccount_valid)
next
  case False
  then have "map g (heap (step op s)) = map g (heap s)"
    using map_heap_step [of g op s, OF bal str] by blast
  then show ?thesis by simp
qed

lemma run_prefix:
  assumes bal: "\<And>acc v. g (acc\<lparr>balance := v\<rparr>) = g acc"
      and str: "\<And>acc v. g (acc\<lparr>interestStrategy := v\<rparr>) = g acc"
  shows "\<exists>ext. map g (heap (run ops s)) = map g (heap s) @ ext"
proof (induction ops arbitrary: s)
  case Nil
  show ?case by (simp add: run_def)
next
  case (Cons op ops)
  obtain e1 where e1: "map g (heap (step op s)) = map g (heap s) @ e1"
    using step_prefix [of g op s, OF bal str] by blast
  obtain e2 where e2: "map g (heap (run ops (step op s))) = map g (heap (step op s)) @ e2"
    using Cons.IH by blast
  have "run (op # ops) s = run ops (step op s)"
    by (simp add: run_def)
  with e1 e2 show ?case by simp
qed

lemma run_keeps_field:
  assumes bal: "\<And>acc v. g (acc\<lparr>balance := v\<rparr>) = g acc"
      and str: "\<And>acc v. g (acc\<lparr>interestStrategy := v\<rparr>) = g acc"
      and a: "a < length (heap s)"
  shows "a < length (heap (run ops s)) \<and> g (heap (run ops s) ! a) = g (heap s ! a)"
proof -
  obtain ext where e: "map g (heap (run ops s)) = map g (heap s) @ ext"
    using run_prefix [of g ops s, OF bal str] by blast
  from e have "length (map g (heap (run ops s))) = length (map g (heap s) @ ext)"
    by simp
  with a have l: "a < length (heap (run ops s))"
    by simp
  from e have "map g (heap (run ops s)) ! a = (map g (heap s) @ ext) ! a"
    by simp
  with a l have "g (heap (run ops s) ! a) = g (heap s ! a)"
    by (simp add: nth_append)
  with l show ?thesis by simp
qed

lemma ids_step:
  assumes "sorted_wrt (<) (map id_acct (heap s))"
      and "\<forall>x\<in>set (map id_acct (heap s)). x < accountIdSeq s"
  shows "sorted_wrt (<) (map id_acct (heap (step op s)))
       \<and> (\<forall>x\<in>set (map id_acct (heap (step op s))). x < accountIdSeq (step op s))"
proof (cases "\<exists>type ownerIdx initial.
                op = CreateAccount type ownerIdx initial \<and> ownerIdx < length (customers s)")
  case True
  with assms show ?thesis
    by (auto simp: createAccount_valid sorted_wrt_append less_Suc_eq)
next
  case False
  then have "map id_acct (heap (step op s)) = map id_acct (heap s)
           \<and> accountIdSeq (step op s) = accountIdSeq s"
    using map_heap_step [of id_acct op s] by auto
  with assms show ?thesis by simp
qed

lemma ids_run:
  assumes "sorted_wrt (<) (map id_acct (heap s))"
      and "\<forall>x\<in>set (map id_acct (heap s)). x < accountIdSeq s"
  shows "sorted_wrt (<) (map id_acct (heap (run ops s)))
       \<and> (\<forall>x\<in>set (map id_acct (heap (run ops s))). x < accountIdSeq (run ops s))"
  using assms
proof (induction ops arbitrary: s)
  case Nil
  then show ?case by (simp add: run_def)
next
  case (Cons op ops)
  have r: "run (op # ops) s = run ops (step op s)"
    by (simp add: run_def)
  from ids_step [OF Cons.prems, of op] show ?case
    unfolding r by (intro Cons.IH) simp_all
qed

section \<open>Execute, then undo\<close>

text \<open>
  C1, as amended. For a Deposit, Withdraw or Transfer command whose references are live and
  whose guard lets it through, \<open>executeCommand\<close> immediately followed by \<open>undoLast\<close> gives
  back every account exactly as it was (and the history as it was), provided the balance
  updates are exact: the amount and the balances touched are finite, each balance is a
  binary64 value, and so are the debited balance minus the amount and the credited balance
  plus the amount. Without that proviso the round trip can miss: with a balance of 0.1,
  depositing 0.2 gives 0.30000000000000004 and the undo leaves 0.10000000000000003.
\<close>

theorem executeCommand_undoLast_exact:
  assumes "valid_cmd cmd s" and "guard_ok cmd s" and "exact_for cmd s"
  shows "heap (undoLast (executeCommand cmd s)) = heap s
       \<and> history (undoLast (executeCommand cmd s)) = history s"
proof (cases cmd)
  case (DepositCommand a x)
  with assms show ?thesis
    by (simp add: undoLast_executeCommand undo_history_irrelevant updateBalance_heap
          valid_cmd_def getBalance_def exact_upd_add)
next
  case (WithdrawCommand a x)
  with assms show ?thesis
    by (simp add: undoLast_executeCommand undo_history_irrelevant updateBalance_heap
          valid_cmd_def getBalance_def exact_upd_sub)
next
  case (TransferCommand f t x)
  show ?thesis
  proof (cases "f = t")
    case True
    with assms TransferCommand show ?thesis
      by (cases "balance (heap s ! t)"; cases x)
         (simp_all add: undoLast_executeCommand undo_history_irrelevant updateBalance_heap
            valid_cmd_def getBalance_def representable_def update_balance_same Let_def)
  next
    case False
    with assms TransferCommand show ?thesis
      by (simp add: undoLast_executeCommand undo_history_irrelevant updateBalance_heap
            valid_cmd_def getBalance_def exact_upd_add exact_upd_sub Let_def
            list_update_swap [of f t])
  qed
qed

theorem executeCommand_undoLast_exact_witness:
  "valid_cmd (TransferCommand 0 1 (Fin 300)) demo
   \<and> guard_ok (TransferCommand 0 1 (Fin 300)) demo
   \<and> exact_for (TransferCommand 0 1 (Fin 300)) demo
   \<and> heap (undoLast (executeCommand (TransferCommand 0 1 (Fin 300)) demo)) = heap demo
   \<and> history (undoLast (executeCommand (TransferCommand 0 1 (Fin 300)) demo)) = history demo"
proof -
  have v: "valid_cmd (TransferCommand 0 1 (Fin 300)) demo"
    by (simp add: valid_cmd_def demo_eq)
  have g: "guard_ok (TransferCommand 0 1 (Fin 300)) demo"
    by (simp add: getBalance_def demo_eq)
  have e: "exact_for (TransferCommand 0 1 (Fin 300)) demo"
    by (simp add: getBalance_def demo_eq representable_def double_eval)
  show ?thesis
    using v g e executeCommand_undoLast_exact [OF v g e] by simp
qed

theorem undo_rounding_counterexample:
  "guard_ok (DepositCommand 0 (to_double (1 / 5))) tenth
   \<and> getBalance tenth 0 = Fin (3602879701896397 / 2 ^ 55)
   \<and> getBalance (executeCommand (DepositCommand 0 (to_double (1 / 5))) tenth) 0
       = Fin (1351079888211149 / 2 ^ 52)
   \<and> getBalance (undoLast (executeCommand (DepositCommand 0 (to_double (1 / 5))) tenth)) 0
       = Fin (1801439850948199 / 2 ^ 54)
   \<and> getBalance (undoLast (executeCommand (DepositCommand 0 (to_double (1 / 5))) tenth)) 0
       \<noteq> getBalance tenth 0"
  by (simp add: tenth_eq app_eval double_eval)

section \<open>The history records aborted commands\<close>

text \<open>
  C2. \<open>executeCommand\<close> runs \<open>execute\<close> and then appends the command to the history, whatever
  \<open>execute\<close> did. When the insufficient-funds guard stopped the command, no account changed
  and the command is in the history all the same; an \<open>undoLast\<close> then pops it and applies
  its \<open>undo\<close> to the untouched accounts: for a refused withdrawal the balance ends up
  raised by the amount.
\<close>

theorem executeCommand_always_pushes:
  "executeCommand cmd s = (execute cmd s)\<lparr>history := history s @ [cmd]\<rparr>
   \<and> (\<not> guard_ok cmd s \<longrightarrow>
        heap (executeCommand cmd s) = heap s
        \<and> history (executeCommand cmd s) = history s @ [cmd]
        \<and> heap (undoLast (executeCommand cmd s)) = heap (undo cmd s)
        \<and> history (undoLast (executeCommand cmd s)) = history s)
   \<and> (a < length (heap s) \<longrightarrow> js_lt (getBalance s a) amount \<longrightarrow>
        getBalance (undoLast (executeCommand (WithdrawCommand a amount) s)) a
          = js_add (getBalance s a) amount)"
proof (intro conjI impI)
  show "executeCommand cmd s = (execute cmd s)\<lparr>history := history s @ [cmd]\<rparr>"
    by (simp add: executeCommand_def Let_def)
next
  assume "\<not> guard_ok cmd s"
  then show "heap (executeCommand cmd s) = heap s"
    by (simp add: executeCommand_def Let_def execute_abort)
next
  show "history (executeCommand cmd s) = history s @ [cmd]"
    by (simp add: executeCommand_def Let_def)
next
  assume "\<not> guard_ok cmd s"
  then have "heap (execute cmd s) = heap s" by (rule execute_abort)
  then have "heap (undo cmd (execute cmd s)) = heap (undo cmd s)" by (rule heap_undo_cong)
  then show "heap (undoLast (executeCommand cmd s)) = heap (undo cmd s)"
    by (simp add: heap_undoLast_executeCommand)
next
  show "history (undoLast (executeCommand cmd s)) = history s"
    by (simp add: undoLast_executeCommand)
next
  assume "a < length (heap s)" and "js_lt (getBalance s a) amount"
  then show "getBalance (undoLast (executeCommand (WithdrawCommand a amount) s)) a
          = js_add (getBalance s a) amount"
    by (simp add: heap_undoLast_executeCommand getBalance_def updateBalance_heap)
qed

theorem executeCommand_always_pushes_witness:
  "\<not> guard_ok (WithdrawCommand 1 (Fin 700)) demo
   \<and> 1 < length (heap demo)
   \<and> js_lt (getBalance demo 1) (Fin 700)
   \<and> heap (executeCommand (WithdrawCommand 1 (Fin 700)) demo) = heap demo
   \<and> history (executeCommand (WithdrawCommand 1 (Fin 700)) demo)
       = history demo @ [WithdrawCommand 1 (Fin 700)]
   \<and> history (undoLast (executeCommand (WithdrawCommand 1 (Fin 700)) demo)) = history demo
   \<and> getBalance (undoLast (executeCommand (WithdrawCommand 1 (Fin 700)) demo)) 1
       = js_add (getBalance demo 1) (Fin 700)
   \<and> getBalance demo 1 = Fin 500
   \<and> js_add (getBalance demo 1) (Fin 700) = Fin 1200"
proof -
  have g: "\<not> guard_ok (WithdrawCommand 1 (Fin 700)) demo"
    by (simp add: getBalance_def demo_eq)
  have v: "1 < length (heap demo)"
    by (simp add: demo_eq)
  have l: "js_lt (getBalance demo 1) (Fin 700)"
    by (simp add: getBalance_def demo_eq)
  have b: "getBalance demo 1 = Fin 500"
    by (simp add: getBalance_def demo_eq)
  have r: "js_add (getBalance demo 1) (Fin 700) = Fin 1200"
    unfolding b by (simp add: double_eval)
  note t = executeCommand_always_pushes [of "WithdrawCommand 1 (Fin 700)" demo 1 "Fin 700"]
  note t2 = t [THEN conjunct2, THEN conjunct1, rule_format, OF g]
  note t3 = t [THEN conjunct2, THEN conjunct2, rule_format, OF v l]
  show ?thesis
    using g v l b r t2 t3 by simp
qed

section \<open>Insufficient funds\<close>

text \<open>
  C3. When the amount of a Withdraw or Transfer command is greater than the balance of the
  (source) account, \<open>execute\<close> changes nothing but the notification panel, to which it adds
  exactly one entry, posted by the core itself and naming the id of that account; no
  entry is posted through any observer.
\<close>

theorem insufficient_funds_aborts:
  "(js_lt (getBalance s a) amount \<longrightarrow>
      execute (WithdrawCommand a amount) s =
        s\<lparr>notifications :=
            (Direct, [Lit ''Withdraw failed: insufficient funds on Acct#'',
                      IdStr (id_acct (heap s ! a))]) # notifications s\<rparr>
      \<and> delivered c (execute (WithdrawCommand a amount) s) = delivered c s)
   \<and> (js_lt (getBalance s from) amount \<longrightarrow>
      execute (TransferCommand from to amount) s =
        s\<lparr>notifications :=
            (Direct, [Lit ''Transfer failed: insufficient funds on Acct#'',
                      IdStr (id_acct (heap s ! from))]) # notifications s\<rparr>
      \<and> delivered c (execute (TransferCommand from to amount) s) = delivered c s)"
  by (simp add: UI_notify_def)

theorem insufficient_funds_aborts_witness:
  "js_lt (getBalance demo 1) (Fin 700)
   \<and> execute (WithdrawCommand 1 (Fin 700)) demo =
       demo\<lparr>notifications :=
              (Direct, [Lit ''Withdraw failed: insufficient funds on Acct#'',
                        IdStr (id_acct (heap demo ! 1))])
              # notifications demo\<rparr>
   \<and> delivered 1 (execute (WithdrawCommand 1 (Fin 700)) demo) = delivered 1 demo
   \<and> js_lt (getBalance demo 0) (Fin 2000)
   \<and> execute (TransferCommand 0 1 (Fin 2000)) demo =
       demo\<lparr>notifications :=
              (Direct, [Lit ''Transfer failed: insufficient funds on Acct#'',
                        IdStr (id_acct (heap demo ! 0))])
              # notifications demo\<rparr>
   \<and> delivered 1 (execute (TransferCommand 0 1 (Fin 2000)) demo) = delivered 1 demo
   \<and> id_acct (heap demo ! 1) = 2 \<and> id_acct (heap demo ! 0) = 1"
proof -
  have l: "js_lt (getBalance demo 1) (Fin 700)" "js_lt (getBalance demo 0) (Fin 2000)"
    by (simp_all add: getBalance_def demo_eq)
  have i: "id_acct (heap demo ! 1) = 2" "id_acct (heap demo ! 0) = 1"
    by (simp_all add: demo_eq)
  show ?thesis
    using l i insufficient_funds_aborts [of demo 1 "Fin 700" 1]
      insufficient_funds_aborts [of demo 0 "Fin 2000" 1 0 1]
    by blast
qed

section \<open>Undo on an empty history\<close>

text \<open>
  C4. In a state whose history is empty, \<open>undoLast\<close> leaves every account and the history
  as they are and posts exactly one notice, ``Nothing to undo'', from the core itself; and
  so does each further call: \<open>n\<close> calls in a row post \<open>n\<close> such notices and change
  nothing else.
\<close>

theorem undoLast_empty_history:
  assumes "history s = []"
  shows "undoLast s = s\<lparr>notifications := (Direct, [Lit ''Nothing to undo'']) # notifications s\<rparr>
       \<and> heap (undoLast s) = heap s
       \<and> history (undoLast s) = []
       \<and> (undoLast ^^ n) s =
           s\<lparr>notifications := replicate n (Direct, [Lit ''Nothing to undo'']) @ notifications s\<rparr>"
  using assms undoLast_empty [of s] undoLast_empty_iter [of s n] by simp

theorem undoLast_empty_history_witness:
  "history init = []
   \<and> undoLast init = init\<lparr>notifications := [(Direct, [Lit ''Nothing to undo''])]\<rparr>
   \<and> heap (undoLast init) = []
   \<and> history (undoLast init) = []
   \<and> (undoLast ^^ 2) init =
       init\<lparr>notifications := [(Direct, [Lit ''Nothing to undo'']), (Direct, [Lit ''Nothing to undo''])]\<rparr>"
proof -
  have h: "history init = []" by (simp add: init_def)
  have n2: "replicate 2 x = [x, x]" for x :: "origin \<times> message"
    by (simp add: numeral_2_eq_2)
  show ?thesis
    using h undoLast_empty_history [OF h, of 2] by (simp add: init_def n2)
qed

section \<open>Transfer\<close>

text \<open>
  C5. When the source balance is at least the amount, \<open>execute\<close> of a Transfer command is
  the debit of the source by \<open>updateBalance\<close> followed by the credit of the destination by
  \<open>updateBalance\<close>: the entries posted by the debit lie beneath those posted by the credit
  in the panel, so they were posted first. Its \<open>undo\<close> is, with no condition, the credit of
  the source followed by the debit of the destination. With accounts of 1000 and 200, a
  transfer of 300 leaves 700 and 500, and the undo leaves 1000 and 200.
\<close>

theorem transfer_debits_then_credits:
  "(js_ge (getBalance s from) amount \<longrightarrow>
      execute (TransferCommand from to amount) s =
        updateBalance to amount [Lit ''Transfer <- Acct#'', IdStr (id_acct (heap s ! from))]
          (updateBalance from (js_neg amount)
             [Lit ''Transfer -> Acct#'', IdStr (id_acct (heap s ! to))] s)
      \<and> (\<exists>debit credit.
            notifications (updateBalance from (js_neg amount)
               [Lit ''Transfer -> Acct#'', IdStr (id_acct (heap s ! to))] s)
              = debit @ notifications s
            \<and> notifications (execute (TransferCommand from to amount) s)
              = credit @ debit @ notifications s
            \<and> map fst debit = rev (map Observer (observers (heap s ! from)))
            \<and> map fst credit = rev (map Observer (observers (heap s ! to)))))
   \<and> undo (TransferCommand from to amount) s =
        updateBalance to (js_neg amount)
          [Lit ''Undo Transfer to Acct#'', IdStr (id_acct (heap s ! to))]
          (updateBalance from amount
             [Lit ''Undo Transfer from Acct#'', IdStr (id_acct (heap s ! from))] s)
   \<and> map balance (heap (transfer 1 2 (Fin 300) pair_AB)) = [Fin 700, Fin 500]
   \<and> map balance (heap (App_undoLast (transfer 1 2 (Fin 300) pair_AB))) = [Fin 1000, Fin 200]
   \<and> notifications (transfer 1 2 (Fin 300) pair_AB) =
       [(Observer 1,
         [Lit ''['', Lit ''Ravi'', Lit ''] '', Lit ''Acct#'', IdStr 2, Lit '' ('',
          Lit ''Current'', Lit ''): '', Lit ''Transfer <- Acct#'', IdStr 1, Lit '' '',
          Lit ''+'', NumStr (Fin 300), Lit (''. New balance: '' @ rupee), ToFixed2 (Fin 500)]),
        (Observer 0,
         [Lit ''['', Lit ''Shivani'', Lit ''] '', Lit ''Acct#'', IdStr 1, Lit '' ('',
          Lit ''Savings'', Lit ''): '', Lit ''Transfer -> Acct#'', IdStr 2, Lit '' '',
          Lit [], NumStr (Fin (- 300)), Lit (''. New balance: '' @ rupee), ToFixed2 (Fin 700)])]
       @ notifications pair_AB"
proof (intro conjI impI)
  assume g: "js_ge (getBalance s from) amount"
  then have ng: "\<not> js_lt (getBalance s from) amount"
    by (simp add: js_ge_def)
  let ?s1 = "updateBalance from (js_neg amount)
               [Lit ''Transfer -> Acct#'', IdStr (id_acct (heap s ! to))] s"
  show e: "execute (TransferCommand from to amount) s =
        updateBalance to amount [Lit ''Transfer <- Acct#'', IdStr (id_acct (heap s ! from))] ?s1"
    using ng by (simp add: Let_def)
  obtain debit where d: "notifications ?s1 = debit @ notifications s"
      "map fst debit = rev (map Observer (observers (heap s ! from)))"
    using updateBalance_posts by blast
  obtain credit where c:
      "notifications (updateBalance to amount
          [Lit ''Transfer <- Acct#'', IdStr (id_acct (heap s ! from))] ?s1)
        = credit @ notifications ?s1"
      "map fst credit = rev (map Observer (observers (heap ?s1 ! to)))"
    using updateBalance_posts by blast
  from d c e show "\<exists>debit credit.
            notifications ?s1 = debit @ notifications s
            \<and> notifications (execute (TransferCommand from to amount) s)
              = credit @ debit @ notifications s
            \<and> map fst debit = rev (map Observer (observers (heap s ! from)))
            \<and> map fst credit = rev (map Observer (observers (heap s ! to)))"
    by (intro exI [of _ debit] exI [of _ credit]) simp
next
  show "undo (TransferCommand from to amount) s =
        updateBalance to (js_neg amount)
          [Lit ''Undo Transfer to Acct#'', IdStr (id_acct (heap s ! to))]
          (updateBalance from amount
             [Lit ''Undo Transfer from Acct#'', IdStr (id_acct (heap s ! from))] s)"
    by (simp add: Let_def)
next
  show "map balance (heap (transfer 1 2 (Fin 300) pair_AB)) = [Fin 700, Fin 500]"
    by (simp add: pair_AB_eq app_eval double_eval)
next
  show "map balance (heap (App_undoLast (transfer 1 2 (Fin 300) pair_AB))) = [Fin 1000, Fin 200]"
    by (simp add: pair_AB_eq app_eval double_eval)
next
  show "notifications (transfer 1 2 (Fin 300) pair_AB) =
       [(Observer 1,
         [Lit ''['', Lit ''Ravi'', Lit ''] '', Lit ''Acct#'', IdStr 2, Lit '' ('',
          Lit ''Current'', Lit ''): '', Lit ''Transfer <- Acct#'', IdStr 1, Lit '' '',
          Lit ''+'', NumStr (Fin 300), Lit (''. New balance: '' @ rupee), ToFixed2 (Fin 500)]),
        (Observer 0,
         [Lit ''['', Lit ''Shivani'', Lit ''] '', Lit ''Acct#'', IdStr 1, Lit '' ('',
          Lit ''Savings'', Lit ''): '', Lit ''Transfer -> Acct#'', IdStr 2, Lit '' '',
          Lit [], NumStr (Fin (- 300)), Lit (''. New balance: '' @ rupee), ToFixed2 (Fin 700)])]
       @ notifications pair_AB"
    by (rule transfer_AB_notifications)
qed

theorem transfer_debits_then_credits_witness:
  "js_ge (getBalance pair_AB 0) (Fin 300)
   \<and> execute (TransferCommand 0 1 (Fin 300)) pair_AB =
        updateBalance 1 (Fin 300) [Lit ''Transfer <- Acct#'', IdStr (id_acct (heap pair_AB ! 0))]
          (updateBalance 0 (js_neg (Fin 300))
             [Lit ''Transfer -> Acct#'', IdStr (id_acct (heap pair_AB ! 1))] pair_AB)
   \<and> map balance (heap (execute (TransferCommand 0 1 (Fin 300)) pair_AB)) = [Fin 700, Fin 500]
   \<and> map fst (notifications (execute (TransferCommand 0 1 (Fin 300)) pair_AB))
       = [Observer 1, Observer 0] @ map fst (notifications pair_AB)"
proof -
  have g: "js_ge (getBalance pair_AB 0) (Fin 300)"
    by (simp add: pair_AB_eq getBalance_def js_ge_def)
  note t = transfer_debits_then_credits [of pair_AB 0 "Fin 300" 1]
  note t1 = t [THEN conjunct1, rule_format, OF g, THEN conjunct1]
  have b: "map balance (heap (execute (TransferCommand 0 1 (Fin 300)) pair_AB))
             = [Fin 700, Fin 500]"
    by (simp add: pair_AB_eq app_eval double_eval)
  have n: "map fst (notifications (execute (TransferCommand 0 1 (Fin 300)) pair_AB))
       = [Observer 1, Observer 0] @ map fst (notifications pair_AB)"
    by (simp add: pair_AB_eq app_eval double_eval)
  show ?thesis
    using g t1 b n by (intro conjI)
qed

section \<open>Interest\<close>

text \<open>
  C6. \<open>calculateInterest\<close> is the account's current strategy applied to its current balance:
  the balance times 0.03 for Savings, times 0.07 for FixedDeposit, and 0 for Current, which
  is also the strategy of a Generic account. It reads the state and returns a Number;
  \<open>calcInterest\<close> of the page leaves every account as it is. For the Savings account of
  1500 of the demo data the interest is 45.
\<close>

theorem calculateInterest_applies_strategy:
  "calculateInterest s a = calculate (interestStrategy (heap s ! a)) (getBalance s a)
   \<and> calculate SavingsInterest b = js_mul b (to_double (3 / 100))
   \<and> calculate FixedDepositInterest b = js_mul b (to_double (7 / 100))
   \<and> calculate CurrentInterest b = Fin 0
   \<and> heap (snd (calcInterest i s)) = heap s
   \<and> (findAccountById s i = Some a \<longrightarrow> fst (calcInterest i s) = calculateInterest s a)
   \<and> (ownerIdx < length (customers s) \<longrightarrow>
        fst (createAccount type ownerIdx initial s) = Some (length (heap s))
        \<and> calculateInterest (snd (createAccount type ownerIdx initial s)) (length (heap s)) =
            (if type = ''savings'' then js_mul (or_zero initial) (to_double (3 / 100))
             else if type = ''fixed'' then js_mul (or_zero initial) (to_double (7 / 100))
             else Fin 0))
   \<and> fst (calcInterest 1 demo) = Fin 45"
proof (intro conjI impI)
  show "calculateInterest s a = calculate (interestStrategy (heap s ! a)) (getBalance s a)"
    by (simp add: calculateInterest_def getBalance_def)
  show "heap (snd (calcInterest i s)) = heap s"
    by (simp add: calcInterest_def split: option.split)
  show "fst (calcInterest 1 demo) = Fin 45"
    by (simp add: demo_eq app_eval double_eval)
next
  assume "findAccountById s i = Some a"
  then show "fst (calcInterest i s) = calculateInterest s a"
    by (simp add: calcInterest_def)
next
  assume v: "ownerIdx < length (customers s)"
  show "fst (createAccount type ownerIdx initial s) = Some (length (heap s))"
    by (simp add: createAccount_valid [OF v])
  show "calculateInterest (snd (createAccount type ownerIdx initial s)) (length (heap s)) =
            (if type = ''savings'' then js_mul (or_zero initial) (to_double (3 / 100))
             else if type = ''fixed'' then js_mul (or_zero initial) (to_double (7 / 100))
             else Fin 0)"
    by (simp add: createAccount_valid [OF v] calculateInterest_def)
qed simp_all

theorem calculateInterest_applies_strategy_witness:
  "findAccountById demo 1 = Some 0
   \<and> fst (calcInterest 1 demo) = calculateInterest demo 0
   \<and> calculateInterest demo 0 = Fin 45
   \<and> 0 < length (customers demo)
   \<and> fst (createAccount ''fixed'' 0 (Fin 1000) demo) = Some (length (heap demo))
   \<and> calculateInterest (snd (createAccount ''fixed'' 0 (Fin 1000) demo)) (length (heap demo))
        = js_mul (or_zero (Fin 1000)) (to_double (7 / 100))
   \<and> js_mul (or_zero (Fin 1000)) (to_double (7 / 100)) = Fin 70"
proof -
  have f: "findAccountById demo 1 = Some 0"
    by (simp add: demo_eq findAccountById_def)
  have v: "0 < length (customers demo)"
    by (simp add: demo_eq)
  note t = calculateInterest_applies_strategy [of demo 0 "Fin 0" 1 0 "''fixed''" "Fin 1000"]
  note t1 = t [THEN conjunct2, THEN conjunct2, THEN conjunct2, THEN conjunct2, THEN conjunct2]
  note t2 = t1 [THEN conjunct1, rule_format, OF f]
  note t3 = t1 [THEN conjunct2, THEN conjunct1, rule_format, OF v]
  have c: "calculateInterest demo 0 = Fin 45"
    by (simp add: demo_eq calculateInterest_def double_eval)
  have m: "js_mul (or_zero (Fin 1000)) (to_double (7 / 100)) = Fin 70"
    by (simp add: or_zero_def double_eval)
  show ?thesis
    using f v t2 t3 c m by simp
qed

lemma new_Account_observers:
  "observers (heap (snd (new_Account own initialBalance s)) ! fst (new_Account own initialBalance s)) = []"
  by (simp add: new_Account_def)

lemma distinct_attach:
  "a < length (heap s) \<Longrightarrow> distinct (observers (heap s ! a)) \<Longrightarrow>
   distinct (observers (heap (attach a ob s) ! a))"
  by (simp add: attach_observers)

lemma distinct_detach:
  "a < length (heap s) \<Longrightarrow> distinct (observers (heap s ! a)) \<Longrightarrow>
   distinct (observers (heap (detach a ob s) ! a))"
  by (simp add: detach_def)

lemma observers_distinct_step:
  assumes "\<forall>obs\<in>set (map observers (heap s)). distinct obs"
  shows "\<forall>obs\<in>set (map observers (heap (step op s))). distinct obs"
proof (cases "\<exists>type ownerIdx initial.
                op = CreateAccount type ownerIdx initial \<and> ownerIdx < length (customers s)")
  case True
  with assms show ?thesis
    by (auto simp: createAccount_valid)
next
  case False
  then have "map observers (heap (step op s)) = map observers (heap s)"
    using map_heap_step [of observers op s] by auto
  with assms show ?thesis by simp
qed

lemma observers_distinct_run:
  assumes "\<forall>obs\<in>set (map observers (heap s)). distinct obs"
  shows "\<forall>obs\<in>set (map observers (heap (run ops s))). distinct obs"
  using assms
proof (induction ops arbitrary: s)
  case Nil
  then show ?case by (simp add: run_def)
next
  case (Cons op ops)
  have r: "run (op # ops) s = run ops (step op s)"
    by (simp add: run_def)
  show ?case
    unfolding r by (rule Cons.IH) (rule observers_distinct_step [OF Cons.prems])
qed

lemma observers_distinct_reachable:
  "a < length (heap (run ops init)) \<Longrightarrow> distinct (observers (heap (run ops init) ! a))"
  using observers_distinct_run [of init ops] by (simp add: init_def)

section \<open>Observers\<close>

text \<open>
  C7. On an account whose observer list has no duplicates (as every list built by \<open>attach\<close>
  and \<open>detach\<close> from the empty list of the constructor), attaching an observer any number of
  times, once or more, gives the same state as attaching it once: the observer is in the
  list exactly once, the list still has no duplicates, and an \<open>updateBalance\<close> on the
  account posts exactly one entry through that observer.
\<close>

theorem attach_idempotent:
  assumes "a < length (heap s)" and "distinct (observers (heap s ! a))"
  shows "(attach a ob ^^ Suc n) s = attach a ob s
       \<and> count_list (observers (heap ((attach a ob ^^ Suc n) s) ! a)) ob = 1
       \<and> distinct (observers (heap ((attach a ob ^^ Suc n) s) ! a))
       \<and> delivered ob (updateBalance a d r ((attach a ob ^^ Suc n) s))
           = delivered ob ((attach a ob ^^ Suc n) s) + 1"
proof -
  have f: "(attach a ob ^^ Suc n) s = attach a ob s"
    using assms(1) by (rule attach_funpow)
  have dist: "distinct (observers (heap (attach a ob s) ! a))"
    using assms by (simp add: attach_observers)
  have mem: "ob \<in> set (observers (heap (attach a ob s) ! a))"
    using assms by (simp add: attach_observers)
  have c: "count_list (observers (heap (attach a ob s) ! a)) ob = 1"
    using dist mem by (simp add: count_list_distinct)
  show ?thesis
    unfolding f using c dist by (simp add: delivered_updateBalance)
qed

theorem attach_idempotent_witness:
  "1 < length (heap demo)
   \<and> distinct (observers (heap demo ! 1))
   \<and> (attach 1 0 ^^ Suc 2) demo = attach 1 0 demo
   \<and> observers (heap ((attach 1 0 ^^ Suc 2) demo) ! 1) = [1, 0]
   \<and> count_list (observers (heap ((attach 1 0 ^^ Suc 2) demo) ! 1)) 0 = 1
   \<and> delivered 0 (updateBalance 1 (Fin 5) [Lit ''Deposit''] ((attach 1 0 ^^ Suc 2) demo))
       = delivered 0 ((attach 1 0 ^^ Suc 2) demo) + 1"
proof -
  have v: "1 < length (heap demo)"
    by (simp add: demo_eq)
  have d: "distinct (observers (heap demo ! 1))"
    by (simp add: demo_eq)
  note t = attach_idempotent [OF v d, where ob = 0 and n = 2 and d = "Fin 5" and r = "[Lit ''Deposit'']"]
  have o: "observers (heap (attach 1 0 demo) ! 1) = [1, 0]"
    by (simp add: demo_eq attach_def modify_def)
  from t have e: "(attach 1 0 ^^ Suc 2) demo = attach 1 0 demo"
    by (rule conjunct1)
  have o': "observers (heap ((attach 1 0 ^^ Suc 2) demo) ! 1) = [1, 0]"
    unfolding e by (rule o)
  note t2 = t [THEN conjunct2, THEN conjunct1]
  note t4 = t [THEN conjunct2, THEN conjunct2, THEN conjunct2]
  show ?thesis
    using v d e o' t2 t4 by (intro conjI)
qed

lemma delivered_history [simp]: "delivered c (s\<lparr>history := h\<rparr>) = delivered c s"
  by (simp add: delivered_def)

lemma delivered_UI_notify [simp]: "delivered c (UI_notify Direct m s) = delivered c s"
  by (simp add: delivered_def)

lemma getBalance_history [simp]: "getBalance (s\<lparr>history := h\<rparr>) a = getBalance s a"
  by (simp add: getBalance_def)

lemma getBalance_UI_notify [simp]: "getBalance (UI_notify w m s) a = getBalance s a"
  by (simp add: getBalance_def)

lemma getBalance_updateBalance_other:
  "a \<noteq> b \<Longrightarrow> getBalance (updateBalance b d r s) a = getBalance s a"
  by (simp add: getBalance_def updateBalance_heap)

lemma getBalance_setInterestStrategy [simp]:
  "getBalance (setInterestStrategy b v s) a = getBalance s a"
  by (cases "b < length (heap s)"; cases "a = b";
      simp add: getBalance_def setInterestStrategy_def list_update_beyond)

lemma count_list_pos: "c \<in> set xs \<Longrightarrow> 0 < count_list xs c"
  using count_list_0_iff [of xs c] by auto

lemma execute_delivers:
  assumes "c \<in> set (observers (heap s ! a))"
      and "getBalance (execute cmd s) a \<noteq> getBalance s a"
  shows "delivered c s < delivered c (execute cmd s)"
proof (cases cmd)
  case (DepositCommand b x)
  with assms(2) have "b = a"
    using getBalance_updateBalance_other [of a b] by auto
  with DepositCommand assms(1) show ?thesis
    by (simp add: delivered_updateBalance count_list_pos)
next
  case (WithdrawCommand b x)
  with assms(2) have g: "\<not> js_lt (getBalance s b) x"
    by (auto split: if_splits)
  with WithdrawCommand assms(2) have "b = a"
    using getBalance_updateBalance_other [of a b] by auto
  with WithdrawCommand g assms(1) show ?thesis
    by (simp add: delivered_updateBalance count_list_pos)
next
  case (TransferCommand f t x)
  with assms(2) have g: "\<not> js_lt (getBalance s f) x"
    by (auto split: if_splits)
  have "f = a \<or> t = a"
  proof (rule ccontr)
    assume "\<not> (f = a \<or> t = a)"
    then have "getBalance (execute cmd s) a = getBalance s a"
      using TransferCommand g by (simp add: Let_def getBalance_updateBalance_other)
    with assms(2) show False by simp
  qed
  moreover have "0 < count_list (observers (heap s ! a)) c"
    using assms(1) by (rule count_list_pos)
  ultimately show ?thesis
    using TransferCommand g by (auto simp: Let_def delivered_updateBalance)
qed

lemma undo_delivers:
  assumes "c \<in> set (observers (heap s ! a))"
      and "getBalance (undo cmd s) a \<noteq> getBalance s a"
  shows "delivered c s < delivered c (undo cmd s)"
proof (cases cmd)
  case (DepositCommand b x)
  with assms(2) have "b = a"
    using getBalance_updateBalance_other [of a b] by auto
  with DepositCommand assms(1) show ?thesis
    by (simp add: delivered_updateBalance count_list_pos)
next
  case (WithdrawCommand b x)
  with assms(2) have "b = a"
    using getBalance_updateBalance_other [of a b] by auto
  with WithdrawCommand assms(1) show ?thesis
    by (simp add: delivered_updateBalance count_list_pos)
next
  case (TransferCommand f t x)
  have "f = a \<or> t = a"
  proof (rule ccontr)
    assume "\<not> (f = a \<or> t = a)"
    then have "getBalance (undo cmd s) a = getBalance s a"
      using TransferCommand by (simp add: Let_def getBalance_updateBalance_other)
    with assms(2) show False by simp
  qed
  moreover have "0 < count_list (observers (heap s ! a)) c"
    using assms(1) by (rule count_list_pos)
  ultimately show ?thesis
    using TransferCommand by (auto simp: Let_def delivered_updateBalance)
qed

lemma executeCommand_delivers:
  assumes "c \<in> set (observers (heap s ! a))"
      and "getBalance (executeCommand cmd s) a \<noteq> getBalance s a"
  shows "delivered c s < delivered c (executeCommand cmd s)"
  using assms execute_delivers [of c s a cmd] by (simp add: executeCommand_def Let_def)

lemma undoLast_delivers:
  assumes "c \<in> set (observers (heap s ! a))"
      and "getBalance (undoLast s) a \<noteq> getBalance s a"
  shows "delivered c s < delivered c (undoLast s)"
proof (cases "history s = []")
  case True
  with assms(2) show ?thesis by (simp add: undoLast_def)
next
  case False
  let ?s = "s\<lparr>history := butlast (history s)\<rparr>"
  from False have u: "undoLast s = undo (last (history s)) ?s"
    by (simp add: undoLast_def Let_def)
  have "delivered c ?s < delivered c (undo (last (history s)) ?s)"
  proof (rule undo_delivers)
    show "c \<in> set (observers (heap ?s ! a))" using assms(1) by simp
    show "getBalance (undo (last (history s)) ?s) a \<noteq> getBalance ?s a"
      using assms(2) by (simp add: u)
  qed
  then show ?thesis by (simp add: u)
qed

lemma step_delivers:
  assumes o: "c \<in> set (observers (heap s ! a))"
      and a: "a < length (heap s)"
      and ch: "getBalance (step op s) a \<noteq> getBalance s a"
  shows "delivered c s < delivered c (step op s)"
proof (cases op)
  case (AddCustomer nm)
  with ch show ?thesis by (simp add: addCustomer_def getBalance_def)
next
  case (CreateAccount type ownerIdx initial)
  with ch a show ?thesis
    by (cases "ownerIdx < length (customers s)")
       (simp_all add: createAccount_valid createAccount_invalid getBalance_def nth_append)
next
  case (Deposit i amount)
  with ch o show ?thesis
    by (auto simp: deposit_def executeCommand_delivers split: option.splits)
next
  case (Withdraw i amount)
  with ch o show ?thesis
    by (auto simp: withdraw_def executeCommand_delivers split: option.splits)
next
  case (Transfer i j amount)
  with ch o show ?thesis
    by (auto simp: transfer_def executeCommand_delivers split: option.splits if_splits)
next
  case UndoLast
  with ch o show ?thesis
    by (simp add: App_undoLast_def undoLast_delivers)
next
  case (ApplyStrategy i key)
  with ch show ?thesis
    by (auto simp: applyStrategy_def Let_def split: option.splits if_splits)
next
  case (CalcInterest i)
  with ch show ?thesis
    by (simp add: calcInterest_def split: option.splits)
qed

text \<open>
  C8. \<open>createAccount\<close> with an owner index inside \<open>customers\<close> returns a new account whose
  owner is that customer and whose observer list is exactly that customer. Whatever
  operations of the page follow, the list stays so, and every \<open>updateBalance\<close> on the
  account posts exactly one entry through the owner. Hence every later operation of the
  page (deposit, withdraw, transfer, undo or any other) that changes the balance of the
  account posts an entry through the owner; a deposit on the account, and a withdrawal
  that passes the guard, set the balance to the Number sum and post exactly one.
\<close>

theorem createAccount_attaches_owner:
  assumes "ownerIdx < length (customers s)"
  shows "fst (createAccount type ownerIdx initial s) = Some (length (heap s))
       \<and> owner (heap (snd (createAccount type ownerIdx initial s)) ! length (heap s)) = ownerIdx
       \<and> observers (heap (snd (createAccount type ownerIdx initial s)) ! length (heap s))
           = [ownerIdx]
       \<and> observers (heap (run ops (snd (createAccount type ownerIdx initial s))) ! length (heap s))
           = [ownerIdx]
       \<and> delivered ownerIdx
           (updateBalance (length (heap s)) d r
              (run ops (snd (createAccount type ownerIdx initial s))))
           = delivered ownerIdx (run ops (snd (createAccount type ownerIdx initial s))) + 1
       \<and> (getBalance (step op (run ops (snd (createAccount type ownerIdx initial s))))
             (length (heap s))
            \<noteq> getBalance (run ops (snd (createAccount type ownerIdx initial s))) (length (heap s))
           \<longrightarrow>
             delivered ownerIdx (run ops (snd (createAccount type ownerIdx initial s)))
               < delivered ownerIdx
                   (step op (run ops (snd (createAccount type ownerIdx initial s)))))
       \<and> (findAccountById (run ops (snd (createAccount type ownerIdx initial s))) i
            = Some (length (heap s)) \<longrightarrow>
             getBalance (deposit i x (run ops (snd (createAccount type ownerIdx initial s))))
               (length (heap s))
               = js_add (getBalance (run ops (snd (createAccount type ownerIdx initial s)))
                           (length (heap s))) x
             \<and> delivered ownerIdx
                 (deposit i x (run ops (snd (createAccount type ownerIdx initial s))))
               = delivered ownerIdx (run ops (snd (createAccount type ownerIdx initial s))) + 1)
       \<and> (findAccountById (run ops (snd (createAccount type ownerIdx initial s))) i
            = Some (length (heap s))
           \<and> \<not> js_lt (getBalance (run ops (snd (createAccount type ownerIdx initial s)))
                         (length (heap s))) x \<longrightarrow>
             getBalance (withdraw i x (run ops (snd (createAccount type ownerIdx initial s))))
               (length (heap s))
               = js_add (getBalance (run ops (snd (createAccount type ownerIdx initial s)))
                           (length (heap s))) (js_neg x)
             \<and> delivered ownerIdx
                 (withdraw i x (run ops (snd (createAccount type ownerIdx initial s))))
               = delivered ownerIdx (run ops (snd (createAccount type ownerIdx initial s))) + 1)"
proof -
  let ?s' = "snd (createAccount type ownerIdx initial s)"
  let ?a = "length (heap s)"
  let ?t = "run ops ?s'"
  have l: "?a < length (heap ?s')"
    by (simp add: createAccount_valid [OF assms])
  have o: "observers (heap ?s' ! ?a) = [ownerIdx]"
    by (simp add: createAccount_valid [OF assms])
  have k: "?a < length (heap ?t) \<and> observers (heap ?t ! ?a) = observers (heap ?s' ! ?a)"
    using run_keeps_field [of observers ?a ?s' ops, OF _ _ l] by simp
  then have lt: "?a < length (heap ?t)" and ot: "observers (heap ?t ! ?a) = [ownerIdx]"
    using o by simp_all
  have c1: "fst (createAccount type ownerIdx initial s) = Some ?a"
    by (simp add: createAccount_valid [OF assms])
  have c2: "owner (heap ?s' ! ?a) = ownerIdx"
    by (simp add: createAccount_valid [OF assms])
  have c5: "delivered ownerIdx (updateBalance ?a d r ?t) = delivered ownerIdx ?t + 1"
    by (simp add: delivered_updateBalance ot)
  have c6: "getBalance (step op ?t) ?a \<noteq> getBalance ?t ?a \<longrightarrow>
              delivered ownerIdx ?t < delivered ownerIdx (step op ?t)"
  proof
    assume "getBalance (step op ?t) ?a \<noteq> getBalance ?t ?a"
    with lt show "delivered ownerIdx ?t < delivered ownerIdx (step op ?t)"
      by (intro step_delivers [of ownerIdx ?t ?a op]) (simp_all add: ot)
  qed
  have c7: "findAccountById ?t i = Some ?a \<longrightarrow>
             getBalance (deposit i x ?t) ?a = js_add (getBalance ?t ?a) x
             \<and> delivered ownerIdx (deposit i x ?t) = delivered ownerIdx ?t + 1"
    using lt
    by (simp add: deposit_def executeCommand_def Let_def delivered_updateBalance ot
          getBalance_def updateBalance_heap)
  have c8: "findAccountById ?t i = Some ?a \<and> \<not> js_lt (getBalance ?t ?a) x \<longrightarrow>
             getBalance (withdraw i x ?t) ?a = js_add (getBalance ?t ?a) (js_neg x)
             \<and> delivered ownerIdx (withdraw i x ?t) = delivered ownerIdx ?t + 1"
    using lt
    by (simp add: withdraw_def executeCommand_def Let_def delivered_updateBalance ot
          getBalance_def updateBalance_heap)
  from c1 c2 o ot c5 c6 c7 c8 show ?thesis
    by (intro conjI)
qed

theorem createAccount_attaches_owner_witness:
  "1 < length (customers demo)
   \<and> fst (createAccount ''fixed'' 1 (Fin 50) demo) = Some (length (heap demo))
   \<and> owner (heap (snd (createAccount ''fixed'' 1 (Fin 50) demo)) ! length (heap demo)) = 1
   \<and> observers (heap (snd (createAccount ''fixed'' 1 (Fin 50) demo)) ! length (heap demo)) = [1]
   \<and> observers
        (heap (run [Deposit 3 (Fin 100), Transfer 1 3 (Fin 20), UndoLast, ApplyStrategy 3 ''savings'']
                 (snd (createAccount ''fixed'' 1 (Fin 50) demo))) ! length (heap demo)) = [1]
   \<and> delivered 1
        (updateBalance (length (heap demo)) (Fin 5) [Lit ''Deposit'']
           (run [Deposit 3 (Fin 100), Transfer 1 3 (Fin 20), UndoLast, ApplyStrategy 3 ''savings'']
              (snd (createAccount ''fixed'' 1 (Fin 50) demo))))
       = delivered 1
           (run [Deposit 3 (Fin 100), Transfer 1 3 (Fin 20), UndoLast, ApplyStrategy 3 ''savings'']
              (snd (createAccount ''fixed'' 1 (Fin 50) demo))) + 1
   \<and> length (heap demo) = 2
   \<and> findAccountById
        (run [Deposit 3 (Fin 100), Transfer 1 3 (Fin 20), UndoLast, ApplyStrategy 3 ''savings'']
           (snd (createAccount ''fixed'' 1 (Fin 50) demo))) 3 = Some 2
   \<and> getBalance
        (run [Deposit 3 (Fin 100), Transfer 1 3 (Fin 20), UndoLast, ApplyStrategy 3 ''savings'']
           (snd (createAccount ''fixed'' 1 (Fin 50) demo))) 2 = Fin 150
   \<and> delivered 1
        (run [Deposit 3 (Fin 100), Transfer 1 3 (Fin 20), UndoLast, ApplyStrategy 3 ''savings'']
           (snd (createAccount ''fixed'' 1 (Fin 50) demo))) = 3
   \<and> getBalance
        (step (Withdraw 3 (Fin 20))
           (run [Deposit 3 (Fin 100), Transfer 1 3 (Fin 20), UndoLast, ApplyStrategy 3 ''savings'']
              (snd (createAccount ''fixed'' 1 (Fin 50) demo)))) 2 = Fin 130
   \<and> delivered 1
        (run [Deposit 3 (Fin 100), Transfer 1 3 (Fin 20), UndoLast, ApplyStrategy 3 ''savings'']
           (snd (createAccount ''fixed'' 1 (Fin 50) demo)))
       < delivered 1
           (step (Withdraw 3 (Fin 20))
              (run [Deposit 3 (Fin 100), Transfer 1 3 (Fin 20), UndoLast, ApplyStrategy 3 ''savings'']
                 (snd (createAccount ''fixed'' 1 (Fin 50) demo))))
   \<and> delivered 1
        (deposit 3 (Fin 20)
           (run [Deposit 3 (Fin 100), Transfer 1 3 (Fin 20), UndoLast, ApplyStrategy 3 ''savings'']
              (snd (createAccount ''fixed'' 1 (Fin 50) demo)))) = 3 + 1
   \<and> delivered 1
        (withdraw 3 (Fin 20)
           (run [Deposit 3 (Fin 100), Transfer 1 3 (Fin 20), UndoLast, ApplyStrategy 3 ''savings'']
              (snd (createAccount ''fixed'' 1 (Fin 50) demo)))) = 3 + 1"
proof -
  let ?t = "run [Deposit 3 (Fin 100), Transfer 1 3 (Fin 20), UndoLast, ApplyStrategy 3 ''savings'']
              (snd (createAccount ''fixed'' 1 (Fin 50) demo))"
  have v: "1 < length (customers demo)"
    by (simp add: demo_eq)
  have len: "length (heap demo) = 2"
    by (simp add: demo_eq)
  have f: "findAccountById ?t 3 = Some 2"
    by (simp add: demo_eq app_eval double_eval)
  have b: "getBalance ?t 2 = Fin 150"
    by (simp add: demo_eq app_eval double_eval)
  have dl: "delivered 1 ?t = 3"
    by (simp add: demo_eq app_eval double_eval delivered_def)
  have w: "getBalance (step (Withdraw 3 (Fin 20)) ?t) 2 = Fin 130"
    by (simp add: demo_eq app_eval double_eval)
  note t = createAccount_attaches_owner [OF v, where type = "''fixed''" and initial = "Fin 50"
      and ops = "[Deposit 3 (Fin 100), Transfer 1 3 (Fin 20), UndoLast, ApplyStrategy 3 ''savings'']"
      and d = "Fin 5" and r = "[Lit ''Deposit'']" and op = "Withdraw 3 (Fin 20)" and i = 3
      and x = "Fin 20", unfolded len]
  note t15 = t [THEN conjunct1] t [THEN conjunct2, THEN conjunct1]
    t [THEN conjunct2, THEN conjunct2, THEN conjunct1]
    t [THEN conjunct2, THEN conjunct2, THEN conjunct2, THEN conjunct1]
    t [THEN conjunct2, THEN conjunct2, THEN conjunct2, THEN conjunct2, THEN conjunct1]
  note r5 = t [THEN conjunct2, THEN conjunct2, THEN conjunct2, THEN conjunct2, THEN conjunct2]
  have ch: "getBalance (step (Withdraw 3 (Fin 20)) ?t) 2 \<noteq> getBalance ?t 2"
    unfolding w b by simp
  note t6 = r5 [THEN conjunct1, rule_format, OF ch]
  note t7 = r5 [THEN conjunct2, THEN conjunct1, rule_format, OF f, THEN conjunct2, unfolded dl]
  have nl: "\<not> js_lt (getBalance ?t 2) (Fin 20)"
    unfolding b by simp
  have g: "findAccountById ?t 3 = Some 2 \<and> \<not> js_lt (getBalance ?t 2) (Fin 20)"
    using f nl by (rule conjI)
  note t8 = r5 [THEN conjunct2, THEN conjunct2, rule_format, OF g, THEN conjunct2, unfolded dl]
  show ?thesis
    unfolding len using v t15 f b dl w t6 t7 t8 by (intro conjI) simp_all
qed

section \<open>Account ids\<close>

text \<open>
  C9. In every state the page can reach from its initial state, the ids of the accounts are
  strictly increasing in the order of construction, hence pairwise different, and an
  account created next gets an id above all of them. The counter \<^verbatim>\<open>accountIdSeq\<close> is a
  natural number here: it starts at 1 and grows by one per construction, which is exact
  for Numbers up to \<open>2^53\<close>.
\<close>

theorem account_ids_increase:
  "sorted_wrt (<) (map id_acct (heap (run ops init)))
   \<and> distinct (map id_acct (heap (run ops init)))
   \<and> (i < j \<and> j < length (heap (run ops init)) \<longrightarrow>
        id_acct (heap (run ops init) ! i) < id_acct (heap (run ops init) ! j))
   \<and> (ownerIdx < length (customers (run ops init)) \<and> a < length (heap (run ops init)) \<longrightarrow>
        id_acct (heap (run ops init) ! a)
          < id_acct (heap (snd (createAccount type ownerIdx initial (run ops init)))
                       ! length (heap (run ops init))))"
proof -
  let ?s = "run ops init"
  have i: "sorted_wrt (<) (map id_acct (heap ?s))"
          "\<forall>x\<in>set (map id_acct (heap ?s)). x < accountIdSeq ?s"
    using ids_run [of init ops] by (simp_all add: init_def)
  have d: "distinct (map id_acct (heap ?s))"
    using i(1) by (simp add: strict_sorted_iff)
  have o: "i < j \<and> j < length (heap ?s) \<longrightarrow>
        id_acct (heap ?s ! i) < id_acct (heap ?s ! j)"
    using i(1) by (auto simp: sorted_wrt_iff_nth_less)
  have n: "ownerIdx < length (customers ?s) \<and> a < length (heap ?s) \<longrightarrow>
        id_acct (heap ?s ! a)
          < id_acct (heap (snd (createAccount type ownerIdx initial ?s)) ! length (heap ?s))"
    using i(2) by (auto simp: createAccount_valid)
  from i(1) d o n show ?thesis by blast
qed

theorem account_ids_increase_witness:
  "(0::nat) < 1
   \<and> 1 < length (heap demo)
   \<and> id_acct (heap demo ! 0) < id_acct (heap demo ! 1)
   \<and> 1 < length (customers demo)
   \<and> id_acct (heap demo ! 1)
       < id_acct (heap (snd (createAccount ''fixed'' 1 (Fin 50) demo)) ! length (heap demo))"
proof -
  have v: "(0::nat) < 1" "1 < length (heap demo)" "1 < length (customers demo)"
    by (simp_all add: demo_eq)
  note t = account_ids_increase [of "[AddCustomer ''Shivani'', AddCustomer ''Ravi'',
               CreateAccount ''savings'' 0 (Fin 1500),
               CreateAccount ''current'' 1 (Fin 500)]" 0 1 1 1 "''fixed''" "Fin 50",
               folded demo_def]
  note t3 = t [THEN conjunct2, THEN conjunct2, THEN conjunct1, rule_format, OF conjI, OF v(1) v(2)]
  note t4 = t [THEN conjunct2, THEN conjunct2, THEN conjunct2, rule_format, OF conjI, OF v(3) v(2)]
  show ?thesis
    using v t3 t4 by (intro conjI)
qed

section \<open>Deposits are not validated\<close>

lemma list_all_update: "list_all P xs \<Longrightarrow> P v \<Longrightarrow> list_all P (xs[a := v])"
  using set_update_subset_insert [of xs a v] by (auto simp: list_all_iff)

lemma numeric_heap_updateBalance:
  "numeric_heap s \<Longrightarrow> numeric_heap (updateBalance a d r s)"
  by (simp add: numeric_heap_def updateBalance_heap map_update list_all_update is_number_js_add)

lemma numeric_heap_UI_notify [simp]: "numeric_heap (UI_notify w m s) = numeric_heap s"
  by (simp add: numeric_heap_def)

lemma numeric_heap_history [simp]: "numeric_heap (s\<lparr>history := h\<rparr>) = numeric_heap s"
  by (simp add: numeric_heap_def)

lemma numeric_heap_execute: "numeric_heap s \<Longrightarrow> numeric_heap (execute cmd s)"
  by (cases cmd) (simp_all add: Let_def numeric_heap_updateBalance)

lemma numeric_heap_undo: "numeric_heap s \<Longrightarrow> numeric_heap (undo cmd s)"
  by (cases cmd) (simp_all add: Let_def numeric_heap_updateBalance)

lemma numeric_heap_executeCommand: "numeric_heap s \<Longrightarrow> numeric_heap (executeCommand cmd s)"
  by (simp add: executeCommand_def Let_def numeric_heap_execute)

lemma numeric_heap_undoLast: "numeric_heap s \<Longrightarrow> numeric_heap (undoLast s)"
  by (simp add: undoLast_def Let_def numeric_heap_undo)

lemma numeric_heap_step:
  assumes "numeric_heap s" and "numeric_op op"
  shows "numeric_heap (step op s)"
proof (cases op)
  case (AddCustomer nm)
  with assms show ?thesis by (simp add: addCustomer_def numeric_heap_def)
next
  case (CreateAccount type ownerIdx initial)
  with assms show ?thesis
    by (cases "ownerIdx < length (customers s)")
       (simp_all add: createAccount_valid createAccount_invalid numeric_heap_def
          is_number_or_zero)
next
  case (Deposit i amount)
  with assms show ?thesis
    by (simp add: deposit_def numeric_heap_executeCommand split: option.split)
next
  case (Withdraw i amount)
  with assms show ?thesis
    by (simp add: withdraw_def numeric_heap_executeCommand split: option.split)
next
  case (Transfer i j amount)
  with assms show ?thesis
    by (simp add: transfer_def numeric_heap_executeCommand split: option.split)
next
  case UndoLast
  with assms show ?thesis by (simp add: App_undoLast_def numeric_heap_undoLast)
next
  case (ApplyStrategy i key)
  with assms show ?thesis
    by (simp add: applyStrategy_def setInterestStrategy_def Let_def numeric_heap_def
          map_list_update_same split: option.split)
next
  case (CalcInterest i)
  with assms show ?thesis by (simp add: calcInterest_def split: option.split)
qed

lemma numeric_heap_run:
  assumes "numeric_heap s" and "list_all numeric_op ops"
  shows "numeric_heap (run ops s)"
  using assms
proof (induction ops arbitrary: s)
  case Nil
  then show ?case by (simp add: run_def)
next
  case (Cons op ops)
  have r: "run (op # ops) s = run ops (step op s)"
    by (simp add: run_def)
  from Cons.prems have "numeric_heap (step op s)" and "list_all numeric_op ops"
    by (simp_all add: numeric_heap_step)
  then show ?case unfolding r by (rule Cons.IH)
qed

lemma balances_are_numbers:
  assumes "list_all numeric_op ops" and "a < length (heap (run ops init))"
  shows "is_number (getBalance (run ops init) a)"
proof -
  have "numeric_heap init" by (simp add: numeric_heap_def init_def)
  then have "numeric_heap (run ops init)" using assms(1) by (rule numeric_heap_run)
  with assms(2) show ?thesis
    by (simp add: numeric_heap_def list_all_length getBalance_def)
qed

lemma deposit_effect:
  "execute (DepositCommand a amount) s = updateBalance a amount [Lit ''Deposit''] s
   \<and> heap (execute (DepositCommand a amount) s) =
       (heap s)[a := (heap s ! a)\<lparr>balance := js_add (balance (heap s ! a)) amount\<rparr>]
   \<and> filter (\<lambda>e. fst e = Direct) (notifications (execute (DepositCommand a amount) s))
       = filter (\<lambda>e. fst e = Direct) (notifications s)
   \<and> (findAccountById s i = Some a \<longrightarrow>
        deposit i amount s = executeCommand (DepositCommand a amount) s)
   \<and> (a < length (heap s) \<longrightarrow>
        getBalance (execute (DepositCommand a amount) s) a = js_add (getBalance s a) amount)
   \<and> (a < length (heap s) \<and> getBalance s a = Fin b \<and> representable b \<and> x < 0 \<longrightarrow>
        \<not> js_lt (getBalance s a) (getBalance (execute (DepositCommand a (Fin x)) s) a)
        \<and> (getBalance (execute (DepositCommand a (Fin x)) s) a \<noteq> getBalance s a \<longrightarrow>
             js_lt (getBalance (execute (DepositCommand a (Fin x)) s) a) (getBalance s a))
        \<and> (representable (b + x) \<longrightarrow>
             js_lt (getBalance (execute (DepositCommand a (Fin x)) s) a) (getBalance s a)))
   \<and> getBalance (deposit 2 (Fin (- 700)) demo) 1 = Fin (- 200)"
proof (intro conjI impI)
  show "filter (\<lambda>e. fst e = Direct) (notifications (execute (DepositCommand a amount) s))
       = filter (\<lambda>e. fst e = Direct) (notifications s)"
    by (simp add: updateBalance_notifications fanout_def filter_map comp_def)
  show "getBalance (deposit 2 (Fin (- 700)) demo) 1 = Fin (- 200)"
    by (simp add: demo_eq app_eval double_eval)
next
  assume "findAccountById s i = Some a"
  then show "deposit i amount s = executeCommand (DepositCommand a amount) s"
    by (simp add: deposit_def)
next
  assume "a < length (heap s)"
  then show "getBalance (execute (DepositCommand a amount) s) a = js_add (getBalance s a) amount"
    by (simp add: getBalance_def updateBalance_heap)
next
  assume h: "a < length (heap s) \<and> getBalance s a = Fin b \<and> representable b \<and> x < 0"
  then have new: "getBalance (execute (DepositCommand a (Fin x)) s) a = js_add (Fin b) (Fin x)"
    by (simp add: getBalance_def updateBalance_heap)
  from h have old: "getBalance s a = Fin b" and r: "representable b" and x: "x \<le> 0"
    by simp_all
  show "\<not> js_lt (getBalance s a) (getBalance (execute (DepositCommand a (Fin x)) s) a)"
    unfolding new old using r x by (rule js_add_negative_not_higher)
next
  assume h: "a < length (heap s) \<and> getBalance s a = Fin b \<and> representable b \<and> x < 0"
     and ne: "getBalance (execute (DepositCommand a (Fin x)) s) a \<noteq> getBalance s a"
  from h have new: "getBalance (execute (DepositCommand a (Fin x)) s) a = js_add (Fin b) (Fin x)"
    by (simp add: getBalance_def updateBalance_heap)
  from h have old: "getBalance s a = Fin b" and r: "representable b" and x: "x \<le> 0"
    by simp_all
  from ne have "js_add (Fin b) (Fin x) \<noteq> Fin b"
    unfolding new old .
  with r x show "js_lt (getBalance (execute (DepositCommand a (Fin x)) s) a) (getBalance s a)"
    unfolding new old by (rule js_add_negative_lower)
next
  assume h: "a < length (heap s) \<and> getBalance s a = Fin b \<and> representable b \<and> x < 0"
     and e: "representable (b + x)"
  then show "js_lt (getBalance (execute (DepositCommand a (Fin x)) s) a) (getBalance s a)"
    by (simp add: getBalance_def updateBalance_heap representable_def)
qed (simp_all add: updateBalance_heap)

text \<open>
  C10, as amended. \<open>execute\<close> of a Deposit command is \<open>updateBalance\<close> with the amount,
  whatever the amount is: zero, negative, or beyond the balance. The balance becomes the
  Number sum of the old balance and the amount, no entry is posted by the core (no failure
  notice), and \<open>deposit\<close> of the page runs that command for every amount once the id is found.
  A negative amount, finite or \<^verbatim>\<open>-Infinity\<close>, never raises the balance, whatever Number the
  balance is. On a finite balance it lowers it unless the sum rounds back to the old
  balance, and so whenever the sum is exact: depositing -700 on 500 leaves -200. On a
  balance that is infinite or NaN it leaves the balance as it is or makes it NaN:
  depositing \<^verbatim>\<open>-Infinity\<close> on \<^verbatim>\<open>Infinity\<close> leaves NaN.
  In every state the page reaches from its initial state with Numbers as initial balances,
  every balance is a Number, so there a negative deposit never raises the balance.
  A negative deposit can be absorbed: depositing -1 on \<open>10^16\<close> leaves \<open>10^16\<close>.
\<close>

theorem deposit_unvalidated:
  "execute (DepositCommand a amount) s = updateBalance a amount [Lit ''Deposit''] s
   \<and> heap (execute (DepositCommand a amount) s) =
       (heap s)[a := (heap s ! a)\<lparr>balance := js_add (balance (heap s ! a)) amount\<rparr>]
   \<and> filter (\<lambda>e. fst e = Direct) (notifications (execute (DepositCommand a amount) s))
       = filter (\<lambda>e. fst e = Direct) (notifications s)
   \<and> (findAccountById s i = Some a \<longrightarrow>
        deposit i amount s = executeCommand (DepositCommand a amount) s)
   \<and> (a < length (heap s) \<longrightarrow>
        getBalance (execute (DepositCommand a amount) s) a = js_add (getBalance s a) amount)
   \<and> (a < length (heap s) \<and> getBalance s a = Fin b \<and> representable b \<and> x < 0 \<longrightarrow>
        \<not> js_lt (getBalance s a) (getBalance (execute (DepositCommand a (Fin x)) s) a)
        \<and> (getBalance (execute (DepositCommand a (Fin x)) s) a \<noteq> getBalance s a \<longrightarrow>
             js_lt (getBalance (execute (DepositCommand a (Fin x)) s) a) (getBalance s a))
        \<and> (representable (b + x) \<longrightarrow>
             js_lt (getBalance (execute (DepositCommand a (Fin x)) s) a) (getBalance s a)))
   \<and> (a < length (heap s) \<and> is_number (getBalance s a) \<and> js_lt amount (Fin 0) \<longrightarrow>
        \<not> js_lt (getBalance s a) (getBalance (execute (DepositCommand a amount) s) a)
        \<and> (is_finite (getBalance s a) \<longrightarrow>
             getBalance (execute (DepositCommand a amount) s) a = getBalance s a
             \<or> js_lt (getBalance (execute (DepositCommand a amount) s) a) (getBalance s a))
        \<and> (\<not> is_finite (getBalance s a) \<longrightarrow>
             getBalance (execute (DepositCommand a amount) s) a = getBalance s a
             \<or> getBalance (execute (DepositCommand a amount) s) a = NaN))
   \<and> (list_all numeric_op ops \<and> a < length (heap (run ops init)) \<and> js_lt amount (Fin 0) \<longrightarrow>
        \<not> js_lt (getBalance (run ops init) a)
            (getBalance (execute (DepositCommand a amount) (run ops init)) a))
   \<and> getBalance (deposit 2 (Fin (- 700)) demo) 1 = Fin (- 200)"
proof -
  have n: "a < length (heap s) \<and> is_number (getBalance s a) \<and> js_lt amount (Fin 0) \<longrightarrow>
        \<not> js_lt (getBalance s a) (getBalance (execute (DepositCommand a amount) s) a)
        \<and> (is_finite (getBalance s a) \<longrightarrow>
             getBalance (execute (DepositCommand a amount) s) a = getBalance s a
             \<or> js_lt (getBalance (execute (DepositCommand a amount) s) a) (getBalance s a))
        \<and> (\<not> is_finite (getBalance s a) \<longrightarrow>
             getBalance (execute (DepositCommand a amount) s) a = getBalance s a
             \<or> getBalance (execute (DepositCommand a amount) s) a = NaN)"
  proof
    assume h: "a < length (heap s) \<and> is_number (getBalance s a) \<and> js_lt amount (Fin 0)"
    then have new: "getBalance (execute (DepositCommand a amount) s) a
                      = js_add (getBalance s a) amount"
      by (simp add: getBalance_def updateBalance_heap)
    from h show "\<not> js_lt (getBalance s a) (getBalance (execute (DepositCommand a amount) s) a)
        \<and> (is_finite (getBalance s a) \<longrightarrow>
             getBalance (execute (DepositCommand a amount) s) a = getBalance s a
             \<or> js_lt (getBalance (execute (DepositCommand a amount) s) a) (getBalance s a))
        \<and> (\<not> is_finite (getBalance s a) \<longrightarrow>
             getBalance (execute (DepositCommand a amount) s) a = getBalance s a
             \<or> getBalance (execute (DepositCommand a amount) s) a = NaN)"
      unfolding new by (intro js_add_negative_number) simp_all
  qed
  have m: "list_all numeric_op ops \<and> a < length (heap (run ops init)) \<and> js_lt amount (Fin 0) \<longrightarrow>
        \<not> js_lt (getBalance (run ops init) a)
            (getBalance (execute (DepositCommand a amount) (run ops init)) a)"
  proof
    assume h: "list_all numeric_op ops \<and> a < length (heap (run ops init)) \<and> js_lt amount (Fin 0)"
    then have k: "is_number (getBalance (run ops init) a)"
      by (intro balances_are_numbers) simp_all
    from h have new: "getBalance (execute (DepositCommand a amount) (run ops init)) a
                      = js_add (getBalance (run ops init) a) amount"
      by (simp add: getBalance_def updateBalance_heap)
    from h k show "\<not> js_lt (getBalance (run ops init) a)
            (getBalance (execute (DepositCommand a amount) (run ops init)) a)"
      unfolding new using js_add_negative_number [of "getBalance (run ops init) a" amount]
      by simp
  qed
  from deposit_effect [of a amount s i b x] n m show ?thesis
    by (elim conjE) (intro conjI; assumption)
qed

theorem deposit_unvalidated_witness:
  "findAccountById demo 2 = Some 1
   \<and> deposit 2 (Fin (- 700)) demo = executeCommand (DepositCommand 1 (Fin (- 700))) demo
   \<and> 1 < length (heap demo)
   \<and> getBalance (execute (DepositCommand 1 (Fin (- 700))) demo) 1
       = js_add (getBalance demo 1) (Fin (- 700))
   \<and> getBalance demo 1 = Fin 500 \<and> representable 500 \<and> (- 700 :: rat) < 0
   \<and> \<not> js_lt (getBalance demo 1) (getBalance (execute (DepositCommand 1 (Fin (- 700))) demo) 1)
   \<and> getBalance (execute (DepositCommand 1 (Fin (- 700))) demo) 1 \<noteq> getBalance demo 1
   \<and> representable (500 + - 700)
   \<and> js_lt (getBalance (execute (DepositCommand 1 (Fin (- 700))) demo) 1) (getBalance demo 1)
   \<and> js_add (getBalance demo 1) (Fin (- 700)) = Fin (- 200)
   \<and> is_number (getBalance demo 1) \<and> js_lt (Fin (- 700)) (Fin 0)
   \<and> is_finite (getBalance demo 1)
   \<and> (getBalance (execute (DepositCommand 1 (Fin (- 700))) demo) 1 = getBalance demo 1
       \<or> js_lt (getBalance (execute (DepositCommand 1 (Fin (- 700))) demo) 1) (getBalance demo 1))
   \<and> 0 < length (heap unbounded)
   \<and> is_number (getBalance unbounded 0) \<and> js_lt NInf (Fin 0)
   \<and> \<not> is_finite (getBalance unbounded 0)
   \<and> \<not> js_lt (getBalance unbounded 0)
           (getBalance (execute (DepositCommand 0 NInf) unbounded) 0)
   \<and> (getBalance (execute (DepositCommand 0 NInf) unbounded) 0 = getBalance unbounded 0
       \<or> getBalance (execute (DepositCommand 0 NInf) unbounded) 0 = NaN)
   \<and> getBalance unbounded 0 = PInf
   \<and> getBalance (execute (DepositCommand 0 NInf) unbounded) 0 = NaN
   \<and> list_all numeric_op [AddCustomer ''Shivani'', CreateAccount ''current'' 0 PInf]
   \<and> 0 < length (heap (run [AddCustomer ''Shivani'', CreateAccount ''current'' 0 PInf] init))
   \<and> \<not> js_lt (getBalance (run [AddCustomer ''Shivani'', CreateAccount ''current'' 0 PInf] init) 0)
           (getBalance
              (execute (DepositCommand 0 NInf)
                 (run [AddCustomer ''Shivani'', CreateAccount ''current'' 0 PInf] init)) 0)"
proof -
  have f: "findAccountById demo 2 = Some 1"
    by (simp add: demo_eq findAccountById_def)
  have v: "1 < length (heap demo)"
    by (simp add: demo_eq)
  have b: "getBalance demo 1 = Fin 500"
    by (simp add: demo_eq getBalance_def)
  have n: "(- 700 :: rat) < 0"
    by simp
  have rb: "representable 500"
    by (simp add: representable_def double_eval)
  have e: "representable (500 + - 700)"
    by (simp add: representable_def double_eval)
  have r: "js_add (getBalance demo 1) (Fin (- 700)) = Fin (- 200)"
    unfolding b by (simp add: double_eval)
  note t = deposit_unvalidated [of 1 "Fin (- 700)" demo 2 500 "- 700" "[]"]
  note t4 = t [THEN conjunct2, THEN conjunct2, THEN conjunct2, THEN conjunct1, rule_format, OF f]
  note t5 = t [THEN conjunct2, THEN conjunct2, THEN conjunct2, THEN conjunct2, THEN conjunct1,
               rule_format, OF v]
  from t5 r have n1: "getBalance (execute (DepositCommand 1 (Fin (- 700))) demo) 1 = Fin (- 200)"
    by (rule trans)
  have ne: "getBalance (execute (DepositCommand 1 (Fin (- 700))) demo) 1 \<noteq> getBalance demo 1"
    using n1 b by simp
  have h: "1 < length (heap demo) \<and> getBalance demo 1 = Fin 500 \<and> representable 500
           \<and> (- 700 :: rat) < 0"
    using v b rb n by (intro conjI)
  note t6 = t [THEN conjunct2, THEN conjunct2, THEN conjunct2, THEN conjunct2, THEN conjunct2,
               THEN conjunct1, rule_format, OF h]
  note t6a = t6 [THEN conjunct1]
  note t6b = t6 [THEN conjunct2, THEN conjunct1, rule_format, OF ne]
  note t6c = t6 [THEN conjunct2, THEN conjunct2, rule_format, OF e]
  have nb: "is_number (getBalance demo 1)"
    unfolding b using rb by simp
  have ng: "js_lt (Fin (- 700)) (Fin 0)"
    by simp
  have fb: "is_finite (getBalance demo 1)"
    unfolding b by simp
  have h7: "1 < length (heap demo) \<and> is_number (getBalance demo 1) \<and> js_lt (Fin (- 700)) (Fin 0)"
    using v nb ng by (intro conjI)
  note t7 = t [THEN conjunct2, THEN conjunct2, THEN conjunct2, THEN conjunct2, THEN conjunct2,
               THEN conjunct2, THEN conjunct1, rule_format, OF h7]
  note t7b = t7 [THEN conjunct2, THEN conjunct1, rule_format, OF fb]
  have uv: "0 < length (heap unbounded)"
    by (simp add: unbounded_eq)
  have ub: "getBalance unbounded 0 = PInf"
    by (simp add: unbounded_eq getBalance_def)
  have un: "is_number (getBalance unbounded 0)"
    unfolding ub by simp
  have ug: "js_lt NInf (Fin 0)"
    by simp
  have uf: "\<not> is_finite (getBalance unbounded 0)"
    unfolding ub by simp
  have h8: "0 < length (heap unbounded) \<and> is_number (getBalance unbounded 0) \<and> js_lt NInf (Fin 0)"
    using uv un ug by (intro conjI)
  note u = deposit_unvalidated [of 0 NInf unbounded 1 0 0
      "[AddCustomer ''Shivani'', CreateAccount ''current'' 0 PInf]"]
  note u7 = u [THEN conjunct2, THEN conjunct2, THEN conjunct2, THEN conjunct2, THEN conjunct2,
               THEN conjunct2, THEN conjunct1, rule_format, OF h8]
  note u7a = u7 [THEN conjunct1]
  note u7c = u7 [THEN conjunct2, THEN conjunct2, rule_format, OF uf]
  have ur: "getBalance (execute (DepositCommand 0 NInf) unbounded) 0 = NaN"
    by (simp add: unbounded_eq getBalance_def updateBalance_heap)
  have no: "list_all numeric_op [AddCustomer ''Shivani'', CreateAccount ''current'' 0 PInf]"
    by simp
  have rv: "0 < length (heap (run [AddCustomer ''Shivani'', CreateAccount ''current'' 0 PInf] init))"
    using uv by (simp only: unbounded_def)
  have h9: "list_all numeric_op [AddCustomer ''Shivani'', CreateAccount ''current'' 0 PInf]
            \<and> 0 < length (heap (run [AddCustomer ''Shivani'', CreateAccount ''current'' 0 PInf] init))
            \<and> js_lt NInf (Fin 0)"
    using no rv ug by (intro conjI)
  note u8 = u [THEN conjunct2, THEN conjunct2, THEN conjunct2, THEN conjunct2, THEN conjunct2,
               THEN conjunct2, THEN conjunct2, THEN conjunct1, rule_format, OF h9]
  show ?thesis
    using f t4 v t5 b rb n t6a ne e t6c r nb ng fb t7b uv un ug uf u7a u7c ub ur no rv u8
    by (intro conjI)
qed

theorem absorbed_deposit_counterexample:
  "getBalance large 0 = Fin (10 ^ 16)
   \<and> representable (10 ^ 16)
   \<and> findAccountById large 1 = Some 0
   \<and> getBalance (execute (DepositCommand 0 (Fin (- 1))) large) 0 = Fin (10 ^ 16)
   \<and> getBalance (deposit 1 (Fin (- 1)) large) 0 = getBalance large 0"
  by (simp add: large_eq app_eval representable_def double_eval)

end
